theory Spec2Isabelle
  imports Complex_Main "HOL-Library.Word"
begin

section \<open>EcoNFC air-quality node: sensor engine and dashboard helpers\<close>

text \<open>
  The firmware part of \<^verbatim>\<open>src/app.js\<close> (the Arduino sketch that starts at line 1592) and
  the dashboard part (the browser script at the top of \<^verbatim>\<open>src/app.js\<close> and in
  \<^verbatim>\<open>src/js/app.js\<close>) are embedded function by function.

  Numbers. The sketch computes in C \<^verbatim>\<open>float\<close> and \<^verbatim>\<open>double\<close> (IEEE binary32 and
  binary64, round to nearest, ties to even). A finite value of either type is modelled by
  the \<^typ>\<open>real\<close> it denotes. In \<^verbatim>\<open>hitungRs\<close> and \<^verbatim>\<open>hitungKonsentrasi\<close>, where
  rounding and underflow decide which branch is taken, every operation is rounded as the C
  code rounds it, and \<^verbatim>\<open>hitungKonsentrasi\<close>, whose intermediate values can overflow,
  computes in a type with the two infinities and NaN. The weighted sum of
  \<^verbatim>\<open>hitungAQI\<close>, the calibration mean and the dashboard's JavaScript numbers are computed
  exactly. The one place where the sketch tests for not-a-number, \<^verbatim>\<open>bacaDHT\<close>, gets its
  raw values as \<^typ>\<open>real option\<close>, \<^term>\<open>None\<close> standing for NaN. A C \<^verbatim>\<open>int\<close> that is
  only compared and converted (the ADC codes) is an \<^typ>\<open>int\<close>; the one that is
  incremented (\<^verbatim>\<open>dhtErrorCount\<close>) is a 32-bit word, read in two's complement.
\<close>

subsection \<open>Floating-point numbers of the C code\<close>

text \<open>
  Rounding to the nearest integer, ties to the even one.
\<close>

definition round_half_even :: "real \<Rightarrow> int" where
  "round_half_even x =
     (let f = \<lfloor>x\<rfloor>; r = x - of_int f
      in if r < 1 / 2 then f
         else if 1 / 2 < r then f + 1
         else if even f then f else f + 1)"

text \<open>
  \<open>binade x\<close> is the exponent \<open>e\<close> with \<open>2 ^ e \<le> |x| < 2 ^ (e + 1)\<close>. \<open>round_to p emin x\<close>
  rounds \<open>x\<close> to the nearest number with a significand of \<open>p\<close> bits and an exponent of at
  least \<open>emin\<close> (below \<open>2 ^ emin\<close> the grid of the subnormal numbers), the exponent not
  bounded above. \<open>to_float\<close> and \<open>to_double\<close> are the two formats of the C code.
\<close>

definition binade :: "real \<Rightarrow> int" where
  "binade x = \<lfloor>log 2 \<bar>x\<bar>\<rfloor>"

definition round_to :: "nat \<Rightarrow> int \<Rightarrow> real \<Rightarrow> real" where
  "round_to p emin x =
     (if x = 0 then 0
      else let e = max (binade x) emin; ulp = 2 powi (e - int p + 1)
           in of_int (round_half_even (x / ulp)) * ulp)"

definition to_float :: "real \<Rightarrow> real" where
  "to_float x = round_to 24 (- 126) x"

definition to_double :: "real \<Rightarrow> real" where
  "to_double x = round_to 53 (- 1022) x"

text \<open>
  A value of a C floating-point type: a number, an infinity or NaN. A rounded result
  beyond the largest finite number of the format is the infinity of its sign.
\<close>

datatype cfloat = NaN | NegInf | PosInf | Num real

definition FLT_MAX :: real where
  "FLT_MAX = (2 ^ 24 - 1) * 2 ^ 104"

definition DBL_MAX :: real where
  "DBL_MAX = (2 ^ 53 - 1) * 2 ^ 971"

definition or_infinity :: "real \<Rightarrow> real \<Rightarrow> cfloat" where
  "or_infinity largest r =
     (if largest < r then PosInf else if r < - largest then NegInf else Num r)"

definition real_to_float :: "real \<Rightarrow> cfloat" where
  "real_to_float x = or_infinity FLT_MAX (to_float x)"

definition real_to_double :: "real \<Rightarrow> cfloat" where
  "real_to_double x = or_infinity DBL_MAX (to_double x)"

text \<open>The conversion of a \<^verbatim>\<open>double\<close> to \<^verbatim>\<open>float\<close>.\<close>

fun narrow_to_float :: "cfloat \<Rightarrow> cfloat" where
  "narrow_to_float (Num x) = real_to_float x"
| "narrow_to_float c = c"

text \<open>The comparisons \<^verbatim>\<open><=\<close>, \<^verbatim>\<open><\<close> and \<^verbatim>\<open>>\<close> with a number; all are false of NaN.\<close>

fun cf_le :: "cfloat \<Rightarrow> real \<Rightarrow> bool" where
  "cf_le (Num x) y = (x \<le> y)"
| "cf_le NegInf y = True"
| "cf_le c y = False"

fun cf_less :: "cfloat \<Rightarrow> real \<Rightarrow> bool" where
  "cf_less (Num x) y = (x < y)"
| "cf_less NegInf y = True"
| "cf_less c y = False"

fun cf_greater :: "cfloat \<Rightarrow> real \<Rightarrow> bool" where
  "cf_greater (Num x) y = (y < x)"
| "cf_greater PosInf y = True"
| "cf_greater c y = False"

text \<open>
  \<^verbatim>\<open>pow\<close> of \<^verbatim>\<open>math.h\<close> in \<^verbatim>\<open>double\<close>, taken as correctly rounded, on the bases that
  \<^verbatim>\<open>hitungKonsentrasi\<close> passes to it: a positive number, where the power is
  \<^term>\<open>x powr y\<close>, or plus infinity. The first equation is meant for \<open>x > 0\<close> only.
\<close>

fun c_pow :: "cfloat \<Rightarrow> real \<Rightarrow> cfloat" where
  "c_pow (Num x) y = real_to_double (x powr y)"
| "c_pow PosInf y = (if y < 0 then Num 0 else if y = 0 then Num 1 else PosInf)"

text \<open>The product of a finite \<^verbatim>\<open>double\<close> and a \<^verbatim>\<open>double\<close>; zero times infinity is NaN.\<close>

fun times_double :: "real \<Rightarrow> cfloat \<Rightarrow> cfloat" where
  "times_double a (Num x) = real_to_double (a * x)"
| "times_double a PosInf = (if 0 < a then PosInf else if a < 0 then NegInf else NaN)"
| "times_double a NegInf = (if 0 < a then NegInf else if a < 0 then PosInf else NaN)"
| "times_double a NaN = NaN"

text \<open>The number that a value is, for a value that is a number.\<close>

fun num_of :: "cfloat \<Rightarrow> real" where
  "num_of (Num x) = x"

subsection \<open>Constants of the sketch (lines 1616-1642)\<close>

definition CALIB_MAGIC :: "8 word" where
  "CALIB_MAGIC = 0xAB"

definition RL_VALUE :: real where
  "RL_VALUE = 10.0"

definition RO_CLEAN_AIR_FACTOR :: real where
  "RO_CLEAN_AIR_FACTOR = 9.83"

definition CALIBRATION_SAMPLES :: nat where
  "CALIBRATION_SAMPLES = 50"

definition MQ135_A :: real where
  "MQ135_A = 116.6020682"

definition MQ135_B :: real where
  "MQ135_B = - 2.769034857"

definition MQ7_A :: real where
  "MQ7_A = 99.0418"

definition MQ7_B :: real where
  "MQ7_B = - 1.518"

definition MQ9_A :: real where
  "MQ9_A = 1000.5"

definition MQ9_B :: real where
  "MQ9_B = - 2.186"

definition MIN_PPM_THRESHOLD :: real where
  "MIN_PPM_THRESHOLD = 0.1"

subsection \<open>Gas sensor functions (lines 1810-1901)\<close>

text \<open>
  \<^verbatim>\<open>hitungRs\<close>, lines 1810-1819. \<open>adc_voltage\<close> is the local \<^verbatim>\<open>float voltage\<close> and
  \<open>raw_Rs\<close> the local \<^verbatim>\<open>float Rs\<close> before the floor is applied. The right-hand sides are
  evaluated in \<^verbatim>\<open>double\<close>, since the literals are, and rounded to \<^verbatim>\<open>float\<close> when they
  are stored. The values are numbers: for an ADC code from 1 to 4095 the voltage is
  positive and the resistance at most 135161 (\<open>raw_Rs_in_range\<close> below), and no other C
  \<^verbatim>\<open>int\<close> than 0 brings an operand near the bounds of either format.
\<close>

definition adc_voltage :: "int \<Rightarrow> real" where
  "adc_voltage adcValue =
     to_float (to_double (to_double (real_of_int adcValue / 4095.0) * to_double 3.3))"

definition raw_Rs :: "int \<Rightarrow> real" where
  "raw_Rs adcValue =
     to_float
       (to_double
          (to_double (to_double (to_double 3.3 * RL_VALUE) / adc_voltage adcValue) - RL_VALUE))"

definition hitungRs :: "int \<Rightarrow> real" where
  "hitungRs adcValue =
     (if adcValue = 0 then 999999.0
      else let Rs = raw_Rs adcValue in
           if Rs \<le> 0 then to_float (to_double 0.1) else Rs)"

text \<open>
  \<^verbatim>\<open>hitungKonsentrasi\<close>, lines 1821-1870. The \<^verbatim>\<open>sensorName\<close> argument and the debug
  printing only feed the serial console and are left out. The four arguments are finite
  \<^verbatim>\<open>float\<close> values. \<^verbatim>\<open>ratio\<close> is a \<^verbatim>\<open>float\<close> quotient, which can underflow to 0 or
  overflow; \<^verbatim>\<open>pow\<close> is read as the \<^verbatim>\<open>double\<close> function of \<^verbatim>\<open>math.h\<close>, so that
  \<^verbatim>\<open>a * pow(ratio, b)\<close> is computed in \<^verbatim>\<open>double\<close> and narrowed to the \<^verbatim>\<open>float ppm\<close>
  (a build that picks a \<^verbatim>\<open>float\<close> overload of \<^verbatim>\<open>pow\<close> can differ from it in the last
  bits of \<^verbatim>\<open>ppm\<close>); \<^verbatim>\<open>MIN_PPM_THRESHOLD\<close> is the \<^verbatim>\<open>double\<close> literal 0.1, compared as
  a \<^verbatim>\<open>double\<close> and stored as a \<^verbatim>\<open>float\<close>. The result is \<open>-1\<close>, a number that passed
  both clamps, or NaN; the last only when \<open>a\<close> is 0 and the power infinite.
\<close>

definition hitungKonsentrasi :: "real \<Rightarrow> real \<Rightarrow> real \<Rightarrow> real \<Rightarrow> cfloat" where
  "hitungKonsentrasi Rs Ro a b =
     (if Ro \<le> 0 then Num (- 1)
      else let ratio = real_to_float (Rs / Ro) in
           if cf_le ratio 0 then Num (- 1)
           else let ppm = narrow_to_float (times_double a (c_pow ratio b));
                    ppm = (if cf_less ppm (to_double MIN_PPM_THRESHOLD)
                           then Num (to_float (to_double MIN_PPM_THRESHOLD)) else ppm);
                    ppm = (if cf_greater ppm 10000 then Num 10000 else ppm)
                in ppm)"

text \<open>\<^verbatim>\<open>hitungAQI\<close>, lines 1872-1880.\<close>

definition hitungAQI :: "real \<Rightarrow> real \<Rightarrow> real \<Rightarrow> real" where
  "hitungAQI ppm_MQ135 ppm_MQ7 ppm_MQ9 =
     (let aqi_MQ135 = ppm_MQ135 * 1.0;
          aqi_MQ7 = ppm_MQ7 * 2.0;
          aqi_MQ9 = ppm_MQ9 * 1.5;
          aqi = (aqi_MQ135 * 0.4) + (aqi_MQ7 * 0.3) + (aqi_MQ9 * 0.3)
      in if aqi > 500 then 500 else aqi)"

text \<open>\<^verbatim>\<open>getStatusUdara\<close>, lines 1882-1888.\<close>

definition getStatusUdara :: "real \<Rightarrow> string" where
  "getStatusUdara aqi =
     (if aqi < 20 then ''Baik''
      else if aqi < 50 then ''Sedang''
      else if aqi < 100 then ''Tidak Sehat''
      else if aqi < 200 then ''Sangat Tidak Sehat''
      else ''Berbahaya'')"

subsection \<open>Dashboard helpers\<close>

text \<open>
  \<^verbatim>\<open>utils.getAqiStatus\<close> returns an object with the fields \<^verbatim>\<open>text\<close> and \<^verbatim>\<open>class\<close>.
  The script exists twice; \<open>getAqiStatus\<close> is the copy in \<^verbatim>\<open>src/app.js\<close> (lines 80-86)
  and \<open>getAqiStatus_js\<close> the copy in \<^verbatim>\<open>src/js/app.js\<close> (lines 66-72).
\<close>

record aqi_status =
  status_text :: string
  status_class :: string

definition getAqiStatus :: "real \<Rightarrow> aqi_status" where
  "getAqiStatus aqi =
     (if aqi < 20 then \<lparr>status_text = ''Baik'', status_class = ''aqi-good''\<rparr>
      else if aqi < 50 then \<lparr>status_text = ''Sedang'', status_class = ''aqi-moderate''\<rparr>
      else if aqi < 100 then \<lparr>status_text = ''Tidak Sehat'', status_class = ''aqi-unhealthy''\<rparr>
      else if aqi < 200 then
        \<lparr>status_text = ''Sangat Tidak Sehat'', status_class = ''aqi-very-unhealthy''\<rparr>
      else \<lparr>status_text = ''Berbahaya'', status_class = ''aqi-hazardous''\<rparr>)"

definition getAqiStatus_js :: "real \<Rightarrow> aqi_status" where
  "getAqiStatus_js aqi =
     (if aqi < 20 then \<lparr>status_text = ''Baik'', status_class = ''aqi-good''\<rparr>
      else if aqi < 50 then \<lparr>status_text = ''Sedang'', status_class = ''aqi-moderate''\<rparr>
      else if aqi < 100 then \<lparr>status_text = ''Tidak Sehat'', status_class = ''aqi-unhealthy''\<rparr>
      else if aqi < 200 then
        \<lparr>status_text = ''Sangat Tidak Sehat'', status_class = ''aqi-very-unhealthy''\<rparr>
      else \<lparr>status_text = ''Berbahaya'', status_class = ''aqi-hazardous''\<rparr>)"

subsection \<open>Firmware state\<close>

text \<open>
  The calibration area of the EEPROM (addresses 0 to 12): three \<^verbatim>\<open>float\<close> cells of four
  bytes each, read and written whole by \<^verbatim>\<open>EEPROM.get\<close> and \<^verbatim>\<open>EEPROM.put\<close>, and the
  marker byte at \<^verbatim>\<open>ADDR_CALIB_FLAG\<close>. A cell is modelled by the number it decodes to.
\<close>

record eeprom =
  cell_Ro_MQ135 :: real
  cell_Ro_MQ7 :: real
  cell_Ro_MQ9 :: real
  cell_calib_flag :: "8 word"

text \<open>
  Of the serial console only the two messages of \<^verbatim>\<open>validasiADC\<close> are recorded, with the
  sensor name and the ADC code they print; every other \<^verbatim>\<open>Serial.print\<close> is dropped.
\<close>

datatype serial_msg =
  AdcAboveLimit string int
| AdcVeryLow string int

text \<open>
  The globals of the sketch that the sensor engine reads or writes (lines 1667-1681).
  \<open>protocol\<close> is \<^verbatim>\<open>currentConfig.protocol\<close>.
\<close>

record device =
  Ro_MQ135 :: real
  Ro_MQ7 :: real
  Ro_MQ9 :: real
  lastValidTemp :: real
  lastValidHumidity :: real
  dhtErrorCount :: "32 word"
  wifiConnected :: bool
  protocol :: string
  EEPROM :: eeprom
  Serial :: "serial_msg list"

text \<open>The globals as their initialisers leave them at power-up, over a given EEPROM content.\<close>

definition power_up :: "eeprom \<Rightarrow> device" where
  "power_up e =
     \<lparr>Ro_MQ135 = 10.0, Ro_MQ7 = 10.0, Ro_MQ9 = 10.0,
      lastValidTemp = 25.0, lastValidHumidity = 50.0, dhtErrorCount = 0,
      wifiConnected = False, protocol = [], EEPROM = e, Serial = []\<rparr>"

text \<open>
  What the hardware returns during one run of \<^verbatim>\<open>readSensorData\<close>: the three
  \<^verbatim>\<open>analogRead\<close> results and the two values of the DHT22 driver (\<^term>\<open>None\<close> for NaN).
\<close>

record cycle_inputs =
  analog_MQ135 :: int
  analog_MQ7 :: int
  analog_MQ9 :: int
  dht_temperature :: "real option"
  dht_humidity :: "real option"

subsection \<open>Validation and the DHT read (lines 1890-1918)\<close>

definition validasiADC :: "int \<Rightarrow> string \<Rightarrow> serial_msg list \<Rightarrow> bool \<times> serial_msg list" where
  "validasiADC adcValue sensorName out =
     (if adcValue > 4095 then (False, out @ [AdcAboveLimit sensorName adcValue])
      else (True, if adcValue < 5 then out @ [AdcVeryLow sensorName adcValue] else out))"

text \<open>
  \<^verbatim>\<open>bacaDHT\<close> returns \<^verbatim>\<open>true\<close> with the two values (\<^term>\<open>Some\<close>) or \<^verbatim>\<open>false\<close>
  (\<^term>\<open>None\<close>); after \<^verbatim>\<open>false\<close> its only caller overwrites both reference arguments.
\<close>

definition bacaDHT :: "real option \<Rightarrow> real option \<Rightarrow> (real \<times> real) option" where
  "bacaDHT readTemperature readHumidity =
     (case readTemperature of
        None \<Rightarrow> None
      | Some temp \<Rightarrow>
          (case readHumidity of
             None \<Rightarrow> None
           | Some humidity \<Rightarrow>
               if temp < - 40 \<or> temp > 80 \<or> humidity < 0 \<or> humidity > 100 then None
               else Some (temp, humidity)))"

subsection \<open>Calibration and its persistence (lines 1922-2005)\<close>

text \<open>
  The sampling loop of \<^verbatim>\<open>kalibrasiSensor\<close>. \<open>rd i\<close> is what the three \<^verbatim>\<open>analogRead\<close>
  calls of iteration \<open>i\<close> return, for the pins of MQ135, MQ7 and MQ9 in this order.
\<close>

function kalibrasi_loop ::
  "(nat \<Rightarrow> int \<times> int \<times> int) \<Rightarrow> nat \<Rightarrow> real \<times> real \<times> real \<Rightarrow> real \<times> real \<times> real" where
  "kalibrasi_loop rd i (sum_MQ135, sum_MQ7, sum_MQ9) =
     (if i < CALIBRATION_SAMPLES then
        (case rd i of
           (adc_MQ135, adc_MQ7, adc_MQ9) \<Rightarrow>
             kalibrasi_loop rd (i + 1)
               (sum_MQ135 + hitungRs adc_MQ135,
                sum_MQ7 + hitungRs adc_MQ7,
                sum_MQ9 + hitungRs adc_MQ9))
      else (sum_MQ135, sum_MQ7, sum_MQ9))"
  by pat_completeness auto
termination
  by (relation "measure (\<lambda>(rd, i, acc). CALIBRATION_SAMPLES - i)") auto

definition tulisEEPROM :: "device \<Rightarrow> device" where
  "tulisEEPROM d =
     (let e = EEPROM d;
          e = e\<lparr>cell_Ro_MQ135 := Ro_MQ135 d\<rparr>;
          e = e\<lparr>cell_Ro_MQ7 := Ro_MQ7 d\<rparr>;
          e = e\<lparr>cell_Ro_MQ9 := Ro_MQ9 d\<rparr>;
          e = e\<lparr>cell_calib_flag := CALIB_MAGIC\<rparr>
      in d\<lparr>EEPROM := e\<rparr>)"

definition kalibrasiSensor :: "(nat \<Rightarrow> int \<times> int \<times> int) \<Rightarrow> device \<Rightarrow> device" where
  "kalibrasiSensor rd d =
     (case kalibrasi_loop rd 0 (0, 0, 0) of
        (sum_MQ135, sum_MQ7, sum_MQ9) \<Rightarrow>
          tulisEEPROM
            (d\<lparr>Ro_MQ135 := (sum_MQ135 / real CALIBRATION_SAMPLES) / RO_CLEAN_AIR_FACTOR,
               Ro_MQ7 := (sum_MQ7 / real CALIBRATION_SAMPLES) / RO_CLEAN_AIR_FACTOR,
               Ro_MQ9 := (sum_MQ9 / real CALIBRATION_SAMPLES) / RO_CLEAN_AIR_FACTOR\<rparr>))"

definition bacaEEPROM :: "device \<Rightarrow> device" where
  "bacaEEPROM d =
     (let calibFlag = cell_calib_flag (EEPROM d) in
      if calibFlag = CALIB_MAGIC then
        d\<lparr>Ro_MQ135 := cell_Ro_MQ135 (EEPROM d),
          Ro_MQ7 := cell_Ro_MQ7 (EEPROM d),
          Ro_MQ9 := cell_Ro_MQ9 (EEPROM d)\<rparr>
      else d)"

subsection \<open>The reading cycle (lines 2032-2099 and 2406-2468)\<close>

text \<open>
  The nine variables that \<^verbatim>\<open>readSensorData\<close> fills by reference. Its callers declare them
  without initialiser, so their values on entry are arbitrary.
\<close>

record readings =
  temp :: real
  hum :: real
  aqi :: real
  ppm_135 :: real
  ppm_7 :: real
  ppm_9 :: real
  adc_135 :: int
  adc_7 :: int
  adc_9 :: int

text \<open>
  The condition of line 2041, \<^verbatim>\<open>!validasiADC(..) || !validasiADC(..) || !validasiADC(..)\<close>,
  evaluated from the left and stopping at the first failed check, as \<^verbatim>\<open>||\<close> does.
\<close>

definition adc_rejected :: "int \<Rightarrow> int \<Rightarrow> int \<Rightarrow> serial_msg list \<Rightarrow> bool \<times> serial_msg list" where
  "adc_rejected a135 a7 a9 out =
     (case validasiADC a135 ''MQ135'' out of
        (ok135, out1) \<Rightarrow>
          if \<not> ok135 then (True, out1)
          else (case validasiADC a7 ''MQ7'' out1 of
                  (ok7, out2) \<Rightarrow>
                    if \<not> ok7 then (True, out2)
                    else (case validasiADC a9 ''MQ9'' out2 of
                            (ok9, out3) \<Rightarrow> (\<not> ok9, out3))))"

text \<open>
  \<^verbatim>\<open>readSensorData\<close>: \<open>r\<close> holds the caller's nine variables on entry, the result holds
  them on return, next to the updated globals. The coefficients are \<^verbatim>\<open>double\<close> literals
  passed as \<^verbatim>\<open>float\<close> arguments. With them \<^verbatim>\<open>hitungKonsentrasi\<close> always returns a
  number (\<open>hitungKonsentrasi_number\<close> and \<open>coefficients_nonzero\<close> below), which \<open>num_of\<close>
  stores in the \<^verbatim>\<open>float\<close> variable.
\<close>

definition readSensorData :: "cycle_inputs \<Rightarrow> readings \<Rightarrow> device \<Rightarrow> readings \<times> device" where
  "readSensorData hw r d =
     (let r = r\<lparr>adc_135 := analog_MQ135 hw, adc_7 := analog_MQ7 hw, adc_9 := analog_MQ9 hw\<rparr> in
      case adc_rejected (adc_135 r) (adc_7 r) (adc_9 r) (Serial d) of
        (rejected, out) \<Rightarrow>
          let d = d\<lparr>Serial := out\<rparr> in
          if rejected then (r\<lparr>aqi := - 1\<rparr>, d)
          else
            let Rs_MQ135 = hitungRs (adc_135 r);
                Rs_MQ7 = hitungRs (adc_7 r);
                Rs_MQ9 = hitungRs (adc_9 r);
                r = r\<lparr>ppm_135 := num_of (hitungKonsentrasi Rs_MQ135 (Ro_MQ135 d)
                       (to_float (to_double MQ135_A)) (to_float (to_double MQ135_B)))\<rparr>;
                r = r\<lparr>ppm_7 := num_of (hitungKonsentrasi Rs_MQ7 (Ro_MQ7 d)
                       (to_float (to_double MQ7_A)) (to_float (to_double MQ7_B)))\<rparr>;
                r = r\<lparr>ppm_9 := num_of (hitungKonsentrasi Rs_MQ9 (Ro_MQ9 d)
                       (to_float (to_double MQ9_A)) (to_float (to_double MQ9_B)))\<rparr>;
                r = (if ppm_135 r < 0 \<or> ppm_7 r < 0 \<or> ppm_9 r < 0 then
                       let r = (if ppm_135 r < 0
                                then r\<lparr>ppm_135 := to_float (to_double MIN_PPM_THRESHOLD)\<rparr> else r);
                           r = (if ppm_7 r < 0
                                then r\<lparr>ppm_7 := to_float (to_double MIN_PPM_THRESHOLD)\<rparr> else r);
                           r = (if ppm_9 r < 0
                                then r\<lparr>ppm_9 := to_float (to_double MIN_PPM_THRESHOLD)\<rparr> else r)
                       in r
                     else r);
                r = r\<lparr>aqi := hitungAQI (ppm_135 r) (ppm_7 r) (ppm_9 r)\<rparr>
            in (case bacaDHT (dht_temperature hw) (dht_humidity hw) of
                  None \<Rightarrow>
                    (r\<lparr>temp := lastValidTemp d, hum := lastValidHumidity d\<rparr>,
                     d\<lparr>dhtErrorCount := dhtErrorCount d + 1\<rparr>)
                | Some (t, h) \<Rightarrow>
                    (r\<lparr>temp := t, hum := h\<rparr>,
                     d\<lparr>lastValidTemp := t, lastValidHumidity := h, dhtErrorCount := 0\<rparr>)))"

text \<open>
  \<^verbatim>\<open>sendSensorData\<close> up to the point where the reading leaves the engine. The first two
  outcomes are its two early \<^verbatim>\<open>return false\<close> (lines 2409 and 2424), before any JSON text
  exists. \<open>Handed r\<close> is the call of \<^verbatim>\<open>createSensorJSON\<close> (line 2427) with the values
  \<open>r\<close>, whose text then goes to the transport that the protocol selects; the transports,
  the LED and the delays are not modelled. \<open>locals\<close> are the uninitialised local variables.
\<close>

datatype send_outcome =
  WifiNotConnected
| SensorDataInvalid
| Handed readings

definition sendSensorData :: "cycle_inputs \<Rightarrow> readings \<Rightarrow> device \<Rightarrow> send_outcome \<times> device" where
  "sendSensorData hw locals d =
     (if \<not> wifiConnected d \<and> protocol d \<noteq> ''SERIAL'' then (WifiNotConnected, d)
      else case readSensorData hw locals d of
             (r, d') \<Rightarrow> if aqi r < 0 then (SensorDataInvalid, d') else (Handed r, d'))"

subsection \<open>Dashboard history (\<^verbatim>\<open>storage.saveSensorData\<close>, lines 174-191)\<close>

text \<open>
  \<open>stored_sensorData\<close> is the \<^verbatim>\<open>localStorage\<close> item \<^verbatim>\<open>aqi_sensor_data\<close>: \<^term>\<open>None\<close> when
  \<^verbatim>\<open>getItem\<close> returns \<^verbatim>\<open>null\<close>, otherwise the array that \<^verbatim>\<open>JSON.parse\<close> makes of it
  (the item is only ever written as \<^verbatim>\<open>JSON.stringify\<close> of an array of records).
  \<open>sensorDataHistory\<close> is \<^verbatim>\<open>state.sensorDataHistory\<close>.
\<close>

record 'a dashboard =
  stored_sensorData :: "'a list option"
  sensorDataHistory :: "'a list"

text \<open>\<^verbatim>\<open>Array.prototype.slice(start)\<close>: a negative \<open>start\<close> counts from the end.\<close>

definition slice_from :: "int \<Rightarrow> 'a list \<Rightarrow> 'a list" where
  "slice_from start xs =
     (let len = int (length xs);
          k = (if start < 0 then max (len + start) 0 else min start len)
      in drop (nat k) xs)"

definition saveSensorData :: "'a \<Rightarrow> 'a dashboard \<Rightarrow> 'a dashboard" where
  "saveSensorData data st =
     (let history = (case stored_sensorData st of None \<Rightarrow> [] | Some parsed \<Rightarrow> parsed);
          history = history @ [data];
          history = (if length history > 1000 then slice_from (- 1000) history else history)
      in st\<lparr>stored_sensorData := Some history, sensorDataHistory := history\<rparr>)"

subsection \<open>Sample inputs\<close>

text \<open>
  Concrete inputs on which the theorems below are instantiated: a cycle with one ADC code
  above 4095, one with a code near zero, one where the DHT driver returns NaN for the
  temperature and one where it returns 85 degrees; an EEPROM without the marker and one
  with the marker over three zero cells; a device in SERIAL mode; fifty identical
  clean-air samples.
\<close>

definition sample_locals :: readings where
  "sample_locals =
     \<lparr>temp = 0, hum = 0, aqi = 0, ppm_135 = 0, ppm_7 = 0, ppm_9 = 0,
      adc_135 = 0, adc_7 = 0, adc_9 = 0\<rparr>"

definition unmarked_eeprom :: eeprom where
  "unmarked_eeprom =
     \<lparr>cell_Ro_MQ135 = 0, cell_Ro_MQ7 = 0, cell_Ro_MQ9 = 0, cell_calib_flag = 0xFF\<rparr>"

definition zeroed_eeprom :: eeprom where
  "zeroed_eeprom =
     \<lparr>cell_Ro_MQ135 = 0, cell_Ro_MQ7 = 0, cell_Ro_MQ9 = 0, cell_calib_flag = 0xAB\<rparr>"

definition serial_device :: device where
  "serial_device = (power_up unmarked_eeprom)\<lparr>protocol := ''SERIAL''\<rparr>"

definition hw_above_max :: cycle_inputs where
  "hw_above_max =
     \<lparr>analog_MQ135 = 2000, analog_MQ7 = 4096, analog_MQ9 = 2000,
      dht_temperature = Some 25, dht_humidity = Some 50\<rparr>"

definition hw_near_zero :: cycle_inputs where
  "hw_near_zero =
     \<lparr>analog_MQ135 = 3, analog_MQ7 = 2000, analog_MQ9 = 2000,
      dht_temperature = Some 25, dht_humidity = Some 50\<rparr>"

definition hw_dht_nan :: cycle_inputs where
  "hw_dht_nan =
     \<lparr>analog_MQ135 = 2000, analog_MQ7 = 2000, analog_MQ9 = 2000,
      dht_temperature = None, dht_humidity = Some 50\<rparr>"

definition hw_dht_hot :: cycle_inputs where
  "hw_dht_hot =
     \<lparr>analog_MQ135 = 2000, analog_MQ7 = 2000, analog_MQ9 = 2000,
      dht_temperature = Some 85, dht_humidity = Some 50\<rparr>"

definition clean_air_reads :: "nat \<Rightarrow> int \<times> int \<times> int" where
  "clean_air_reads i = (2000, 2000, 2000)"

section \<open>Properties\<close>

subsection \<open>Labels\<close>

text \<open>
  Claim C3. The label of \<^verbatim>\<open>getStatusUdara\<close> is decided by the four thresholds
  20, 50, 100 and 200 alone: every score gets exactly the label of the interval it lies in,
  the intervals \<open>(.., 20)\<close>, \<open>[20, 50)\<close>, \<open>[50, 100)\<close>, \<open>[100, 200)\<close>, \<open>[200, ..)\<close> are
  closed on the left, so 20 is "Sedang", 50 is "Tidak Sehat", 100 is "Sangat Tidak Sehat"
  and 200 is "Berbahaya", and the five labels are pairwise different, so that exactly one
  of them applies to a score.
\<close>

theorem getStatusUdara_partition:
  "(getStatusUdara score = ''Baik'' \<longleftrightarrow> score < 20)
   \<and> (getStatusUdara score = ''Sedang'' \<longleftrightarrow> 20 \<le> score \<and> score < 50)
   \<and> (getStatusUdara score = ''Tidak Sehat'' \<longleftrightarrow> 50 \<le> score \<and> score < 100)
   \<and> (getStatusUdara score = ''Sangat Tidak Sehat'' \<longleftrightarrow> 100 \<le> score \<and> score < 200)
   \<and> (getStatusUdara score = ''Berbahaya'' \<longleftrightarrow> 200 \<le> score)
   \<and> getStatusUdara 20 = ''Sedang''
   \<and> getStatusUdara 50 = ''Tidak Sehat''
   \<and> getStatusUdara 100 = ''Sangat Tidak Sehat''
   \<and> getStatusUdara 200 = ''Berbahaya''
   \<and> distinct [''Baik'', ''Sedang'', ''Tidak Sehat'', ''Sangat Tidak Sehat'', ''Berbahaya'']"
  by (simp add: getStatusUdara_def)

text \<open>
  Claim C9. On every score the dashboard's \<^verbatim>\<open>utils.getAqiStatus\<close> (both copies of the
  script) shows the text that the firmware's \<^verbatim>\<open>getStatusUdara\<close> sends: same thresholds,
  same side of each boundary, same five texts.
\<close>

theorem getAqiStatus_agrees:
  "status_text (getAqiStatus score) = getStatusUdara score
   \<and> status_text (getAqiStatus_js score) = getStatusUdara score"
  by (simp add: getAqiStatus_def getAqiStatus_js_def getStatusUdara_def)

subsection \<open>Rounding\<close>

lemma powr_powi: "(2::real) powr real_of_int k = 2 powi k"
  by (cases "0 \<le> k")
    (simp_all add: powr_real_of_int power_int_def power_one_over inverse_eq_divide)

lemma powi_neg_nat: "(2::real) powi (- int n) = 1 / 2 ^ n"
  by (simp add: power_int_minus inverse_eq_divide)

lemma powi_less_imp_less:
  assumes "(2::real) powi m < 2 powi n"
  shows "m < n"
proof (rule ccontr)
  assume "\<not> m < n"
  then have "n \<le> m" by simp
  then have "(2::real) powi n \<le> 2 powi m"
    by (intro power_int_increasing) simp_all
  with assms show False by simp
qed

lemma powi_le_pos:
  assumes "(2::real) powi k \<le> x"
  shows "0 < x"
proof -
  have "(0::real) < 2 powi k" by simp
  with assms show ?thesis by linarith
qed

lemma binade_eq:
  assumes "2 powi e \<le> \<bar>x\<bar>" and "\<bar>x\<bar> < 2 powi (e + 1)"
  shows "binade x = e"
proof -
  have pos: "0 < \<bar>x\<bar>"
    using assms(1) by (rule powi_le_pos)
  have "2 powr real_of_int e \<le> \<bar>x\<bar> \<and> \<bar>x\<bar> < 2 powr real_of_int (e + 1)"
    using assms by (simp only: powr_powi)
  then show ?thesis
    unfolding binade_def using floor_log_eq_powr_iff [of "\<bar>x\<bar>" 2 e] pos by simp
qed

lemma binade_bounds:
  assumes "x \<noteq> 0"
  shows "2 powi (binade x) \<le> \<bar>x\<bar>" and "\<bar>x\<bar> < 2 powi (binade x + 1)"
proof -
  have pos: "0 < \<bar>x\<bar>" using assms by simp
  have "2 powr real_of_int (binade x) \<le> \<bar>x\<bar> \<and> \<bar>x\<bar> < 2 powr real_of_int (binade x + 1)"
    using floor_log_eq_powr_iff [of "\<bar>x\<bar>" 2 "binade x"] pos by (simp add: binade_def)
  then show "2 powi (binade x) \<le> \<bar>x\<bar>" and "\<bar>x\<bar> < 2 powi (binade x + 1)"
    by (simp_all only: powr_powi)
qed

text \<open>Evaluation on a normal number whose significand, scaled by \<open>2 ^ n\<close>, has \<open>p\<close> bits.\<close>

lemma round_to_scaled:
  assumes lo: "2 ^ (p - 1) \<le> \<bar>x\<bar> * 2 ^ n" and hi: "\<bar>x\<bar> * 2 ^ n < 2 ^ p"
    and p: "0 < p" and e: "emin \<le> int p - 1 - int n"
  shows "round_to p emin x = of_int (round_half_even (x * 2 ^ n)) / 2 ^ n"
proof -
  let ?e = "int p - 1 - int n"
  obtain q where q: "p = Suc q"
    using p by (cases p) auto
  have two: "(2::real) powi ?e = 2 ^ (p - 1) / 2 ^ n"
    by (simp add: q power_int_diff)
  have two': "(2::real) powi (?e + 1) = 2 ^ p / 2 ^ n"
    by (simp add: power_int_diff)
  have a: "2 powi ?e \<le> \<bar>x\<bar>"
    unfolding two using lo by (simp add: field_simps)
  have b: "\<bar>x\<bar> < 2 powi (?e + 1)"
    unfolding two' using hi by (simp add: field_simps)
  have "0 < \<bar>x\<bar>"
    using a by (rule powi_le_pos)
  then have ne: "x \<noteq> 0" by simp
  have bin: "binade x = ?e"
    using a b by (rule binade_eq)
  have "?e - int p + 1 = - int n"
    by simp
  then have ulp: "(2::real) powi (?e - int p + 1) = 1 / 2 ^ n"
    by (simp only: powi_neg_nat)
  have "round_to p emin x =
      of_int (round_half_even (x / 2 powi (?e - int p + 1))) * 2 powi (?e - int p + 1)"
    using ne e by (simp add: round_to_def Let_def bin max_def)
  then show ?thesis
    by (simp only: ulp) simp
qed

text \<open>Evaluation below the normal range, on the fixed grid of the subnormal numbers.\<close>

lemma round_to_subnormal:
  assumes ne: "x \<noteq> 0" and small: "\<bar>x\<bar> * 2 ^ m < 1"
    and m: "emin = - int m" and n: "n = m + p - 1" and p: "0 < p"
  shows "round_to p emin x = of_int (round_half_even (x * 2 ^ n)) / 2 ^ n"
proof -
  have "\<bar>x\<bar> < 2 powi emin"
    unfolding m powi_neg_nat using small by (simp add: field_simps)
  then have "2 powi (binade x) < (2::real) powi emin"
    using binade_bounds(1) [OF ne] by linarith
  then have "binade x < emin"
    by (rule powi_less_imp_less)
  moreover have "(2::real) powi (emin - int p + 1) = 1 / 2 ^ n"
    using powi_neg_nat [of n] p by (simp add: m n of_nat_diff algebra_simps)
  ultimately show ?thesis
    using ne by (simp add: round_to_def Let_def max_def)
qed

text \<open>Evaluation on a normal number whose last bit is worth \<open>2 ^ n\<close>.\<close>

lemma round_to_whole:
  assumes lo: "2 ^ (p - 1) * 2 ^ n \<le> \<bar>x\<bar>" and hi: "\<bar>x\<bar> < 2 ^ p * 2 ^ n"
    and p: "0 < p" and e: "emin \<le> int p - 1 + int n"
  shows "round_to p emin x = of_int (round_half_even (x / 2 ^ n)) * 2 ^ n"
proof -
  let ?e = "int p - 1 + int n"
  obtain q where q: "p = Suc q"
    using p by (cases p) auto
  have two: "(2::real) powi ?e = 2 ^ (p - 1) * 2 ^ n"
    by (simp add: q power_int_add)
  have "?e + 1 = int p + int n"
    by simp
  moreover have "(2::real) powi (int p + int n) = 2 powi (int p) * 2 powi (int n)"
    by (rule power_int_add) simp
  ultimately have two': "(2::real) powi (?e + 1) = 2 ^ p * 2 ^ n"
    by simp
  have a: "2 powi ?e \<le> \<bar>x\<bar>"
    unfolding two using lo .
  have b: "\<bar>x\<bar> < 2 powi (?e + 1)"
    unfolding two' using hi .
  have "0 < \<bar>x\<bar>"
    using a by (rule powi_le_pos)
  then have ne: "x \<noteq> 0" by simp
  have bin: "binade x = ?e"
    using a b by (rule binade_eq)
  have "?e - int p + 1 = int n"
    by simp
  then have ulp: "(2::real) powi (?e - int p + 1) = 2 ^ n"
    by (simp only: power_int_of_nat)
  have "round_to p emin x =
      of_int (round_half_even (x / 2 powi (?e - int p + 1))) * 2 powi (?e - int p + 1)"
    using ne e by (simp add: round_to_def Let_def bin max_def)
  then show ?thesis
    by (simp only: ulp)
qed

lemma round_half_even_ge_floor: "\<lfloor>x\<rfloor> \<le> round_half_even x"
  by (simp add: round_half_even_def Let_def)

lemma round_half_even_ge:
  assumes "of_int k \<le> x"
  shows "k \<le> round_half_even x"
proof -
  have "k \<le> \<lfloor>x\<rfloor>"
    using assms by (simp add: le_floor_iff)
  then show ?thesis
    using round_half_even_ge_floor [of x] by linarith
qed

lemma round_half_even_zero:
  assumes "0 \<le> x" and "x \<le> 1 / 2"
  shows "round_half_even x = 0"
proof -
  have "\<lfloor>x\<rfloor> = 0"
    using assms by (simp add: floor_eq_iff)
  then show ?thesis
    using assms by (simp add: round_half_even_def Let_def)
qed

lemma round_half_even_positive:
  assumes "1 / 2 < x"
  shows "1 \<le> round_half_even x"
proof (cases "1 \<le> x")
  case True
  then show ?thesis
    using round_half_even_ge [of 1 x] by simp
next
  case False
  then have "\<lfloor>x\<rfloor> = 0"
    using assms by (simp add: floor_eq_iff)
  then show ?thesis
    using assms by (simp add: round_half_even_def Let_def)
qed

text \<open>Rounding does not fall below a power of two of the format that the number reaches.\<close>

lemma round_to_ge_pow2:
  assumes p: "0 < p" and k: "emin \<le> k" and x: "2 powi k \<le> x"
  shows "2 powi k \<le> round_to p emin x"
proof -
  have pos: "0 < x"
    using x by (rule powi_le_pos)
  then have ne: "x \<noteq> 0" by simp
  let ?e = "binade x"
  have "2 powi k \<le> \<bar>x\<bar>" using x pos by simp
  also have "\<bar>x\<bar> < 2 powi (?e + 1)"
    by (rule binade_bounds(2) [OF ne])
  finally have "k < ?e + 1"
    by (rule powi_less_imp_less)
  then have ke: "k \<le> ?e" by simp
  with k have m: "max ?e emin = ?e" by simp
  let ?ulp = "(2::real) powi (?e - int p + 1)"
  have ulp_pos: "0 < ?ulp" by simp
  obtain q where q: "p = Suc q" using p by (cases p) auto
  have e_ulp: "2 powi ?e = 2 ^ q * ?ulp"
  proof -
    have "(2::real) powi ?e = 2 powi (int q + (?e - int p + 1))"
      by (simp add: q)
    also have "\<dots> = 2 powi (int q) * ?ulp"
      by (rule power_int_add) simp
    finally show ?thesis by simp
  qed
  have "2 powi ?e \<le> x"
    using binade_bounds(1) [OF ne] pos by simp
  then have "2 ^ q \<le> x / ?ulp"
    unfolding e_ulp using ulp_pos by (simp add: pos_le_divide_eq)
  then have "of_int (2 ^ q) \<le> x / ?ulp" by simp
  then have "2 ^ q \<le> round_half_even (x / ?ulp)"
    by (rule round_half_even_ge)
  then have "(2::real) ^ q \<le> of_int (round_half_even (x / ?ulp))"
    by (metis of_int_le_iff of_int_numeral of_int_power)
  then have "2 ^ q * ?ulp \<le> of_int (round_half_even (x / ?ulp)) * ?ulp"
    using ulp_pos by simp
  then have "2 powi ?e \<le> round_to p emin x"
    using ne by (simp add: round_to_def Let_def m e_ulp)
  moreover have "(2::real) powi k \<le> 2 powi ?e"
    using ke by (simp add: power_int_increasing)
  ultimately show ?thesis by linarith
qed

lemma to_double_ge_pow2: "- 1022 \<le> k \<Longrightarrow> 2 powi k \<le> x \<Longrightarrow> 2 powi k \<le> to_double x"
  unfolding to_double_def by (rule round_to_ge_pow2) simp_all

lemma to_float_ge_pow2: "- 126 \<le> k \<Longrightarrow> 2 powi k \<le> x \<Longrightarrow> 2 powi k \<le> to_float x"
  unfolding to_float_def by (rule round_to_ge_pow2) simp_all

lemma round_half_even_error: "\<bar>of_int (round_half_even x) - x\<bar> \<le> 1 / 2"
proof -
  have "of_int \<lfloor>x\<rfloor> \<le> x" and "x < of_int \<lfloor>x\<rfloor> + 1"
    by linarith+
  then show ?thesis
    by (auto simp add: round_half_even_def Let_def abs_le_iff)
qed

lemma powi_succ: "(2::real) powi (k + 1) = 2 powi k * 2"
  by (simp add: power_int_add)

text \<open>In the normal range rounding changes a number by at most its \<open>2 ^ p\<close>th part.\<close>

lemma round_to_relative_error:
  assumes p: "0 < p" and normal: "2 powi emin \<le> \<bar>x\<bar>"
  shows "\<bar>round_to p emin x - x\<bar> \<le> \<bar>x\<bar> / 2 ^ p"
proof -
  have "0 < \<bar>x\<bar>"
    using normal by (rule powi_le_pos)
  then have ne: "x \<noteq> 0" by simp
  let ?e = "binade x"
  have "2 powi emin < (2::real) powi (?e + 1)"
    using normal binade_bounds(2) [OF ne] by linarith
  then have "emin < ?e + 1"
    by (rule powi_less_imp_less)
  then have m: "max ?e emin = ?e" by simp
  let ?ulp = "(2::real) powi (?e - int p + 1)"
  have ulp_pos: "0 < ?ulp" by simp
  have r: "round_to p emin x = of_int (round_half_even (x / ?ulp)) * ?ulp"
    using ne by (simp add: round_to_def Let_def m)
  have "round_to p emin x - x = (of_int (round_half_even (x / ?ulp)) - x / ?ulp) * ?ulp"
    unfolding r using ulp_pos by (simp add: field_simps)
  then have "\<bar>round_to p emin x - x\<bar> = \<bar>of_int (round_half_even (x / ?ulp)) - x / ?ulp\<bar> * ?ulp"
    using ulp_pos by (simp add: abs_mult)
  also have "\<dots> \<le> (1 / 2) * ?ulp"
    using round_half_even_error [of "x / ?ulp"] ulp_pos by (intro mult_right_mono) simp_all
  also have "(1 / 2) * ?ulp = 2 powi ?e / 2 ^ p"
  proof -
    have "(2::real) powi ?e = 2 powi (int p + (?e - int p))"
      by simp
    also have "\<dots> = 2 powi (int p) * 2 powi (?e - int p)"
      by (rule power_int_add) simp
    finally have a: "(2::real) powi ?e = 2 ^ p * 2 powi (?e - int p)"
      by simp
    have b: "?ulp = 2 powi (?e - int p) * 2"
      by (rule powi_succ)
    show ?thesis
      unfolding a b by simp
  qed
  also have "\<dots> \<le> \<bar>x\<bar> / 2 ^ p"
    using binade_bounds(1) [OF ne] by (simp add: divide_right_mono)
  finally show ?thesis .
qed

lemma to_double_error:
  assumes "2 powi (- 1022) \<le> \<bar>x\<bar>"
  shows "\<bar>to_double x - x\<bar> \<le> \<bar>x\<bar> / 2 ^ 53"
  unfolding to_double_def using assms by (intro round_to_relative_error) simp_all

lemma to_float_error:
  assumes "2 powi (- 126) \<le> \<bar>x\<bar>"
  shows "\<bar>to_float x - x\<bar> \<le> \<bar>x\<bar> / 2 ^ 24"
  unfolding to_float_def using assms by (intro round_to_relative_error) simp_all

lemma powi_mono_le: "m \<le> n \<Longrightarrow> (2::real) powi m \<le> 2 powi n"
  by (intro power_int_increasing) simp_all

subsection \<open>Values of the constants and of three runs of \<^verbatim>\<open>hitungRs\<close>\<close>

lemma to_double_3_3: "to_double 3.3 = (3715469692580659 / 2 ^ 50)"
  unfolding to_double_def
  by (subst round_to_scaled [where n = 51]) (simp_all add: round_half_even_def Let_def)

lemma to_double_0_1: "to_double 0.1 = (3602879701896397 / 2 ^ 55)"
  unfolding to_double_def
  by (subst round_to_scaled [where n = 56]) (simp_all add: round_half_even_def Let_def)

lemma float_0_1: "to_float (to_double 0.1) = (13421773 / 2 ^ 27)"
  unfolding to_double_0_1 to_float_def
  by (subst round_to_scaled [where n = 27]) (simp_all add: round_half_even_def Let_def)

lemma raw_Rs_2000: "adc_voltage 2000 = (13520101 / 2 ^ 23) \<and> raw_Rs 2000 = (10983833 / 2 ^ 20)"
proof -
  have d1: "to_double (real_of_int 2000 / 4095.0) = (8798241030272031 / 2 ^ 54)"
    unfolding to_double_def 
    by (subst round_to_scaled [where n = 54]) (simp_all add: round_half_even_def Let_def)
  have d2: "to_double ((8798241030272031 / 2 ^ 54) * (3715469692580659 / 2 ^ 50)) = (7258548849974425 / 2 ^ 52)"
    unfolding to_double_def 
    by (subst round_to_scaled [where n = 52]) (simp_all add: round_half_even_def Let_def)
  have v: "to_float (7258548849974425 / 2 ^ 52) = (13520101 / 2 ^ 23)"
    unfolding to_float_def 
    by (subst round_to_scaled [where n = 23]) (simp_all add: round_half_even_def Let_def)
  have voltage: "adc_voltage 2000 = (13520101 / 2 ^ 23)"
    by (simp only: adc_voltage_def d1 to_double_3_3 d2 v)
  have t: "to_double ((3715469692580659 / 2 ^ 50) * RL_VALUE) = 33"
    unfolding to_double_def RL_VALUE_def
    by (subst round_to_scaled [where n = 47]) (simp_all add: round_half_even_def Let_def)
  have q: "to_double (33 / (13520101 / 2 ^ 23)) = (2881600032697579 / 2 ^ 47)"
    unfolding to_double_def 
    by (subst round_to_scaled [where n = 48]) (simp_all add: round_half_even_def Let_def)
  have s: "to_double ((2881600032697579 / 2 ^ 47) - RL_VALUE) = (1474225149144299 / 2 ^ 47)"
    unfolding to_double_def RL_VALUE_def
    by (subst round_to_scaled [where n = 49]) (simp_all add: round_half_even_def Let_def)
  have rs: "to_float (1474225149144299 / 2 ^ 47) = (10983833 / 2 ^ 20)"
    unfolding to_float_def 
    by (subst round_to_scaled [where n = 20]) (simp_all add: round_half_even_def Let_def)
  have raw: "raw_Rs 2000 = (10983833 / 2 ^ 20)"
    by (simp only: raw_Rs_def voltage to_double_3_3 t q s rs)
  from voltage raw show ?thesis by simp
qed

lemma raw_Rs_4095: "adc_voltage 4095 = (13841203 / 2 ^ 22) \<and> raw_Rs 4095 = (5084005 / 2 ^ 45)"
proof -
  have d1: "to_double (real_of_int 4095 / 4095.0) = 1"
    unfolding to_double_def 
    by (subst round_to_scaled [where n = 52]) (simp_all add: round_half_even_def Let_def)
  have d2: "to_double (1 * (3715469692580659 / 2 ^ 50)) = (3715469692580659 / 2 ^ 50)"
    unfolding to_double_def 
    by (subst round_to_scaled [where n = 51]) (simp_all add: round_half_even_def Let_def)
  have v: "to_float (3715469692580659 / 2 ^ 50) = (13841203 / 2 ^ 22)"
    unfolding to_float_def 
    by (subst round_to_scaled [where n = 22]) (simp_all add: round_half_even_def Let_def)
  have voltage: "adc_voltage 4095 = (13841203 / 2 ^ 22)"
    by (simp only: adc_voltage_def d1 to_double_3_3 d2 v)
  have t: "to_double ((3715469692580659 / 2 ^ 50) * RL_VALUE) = 33"
    unfolding to_double_def RL_VALUE_def
    by (subst round_to_scaled [where n = 47]) (simp_all add: round_half_even_def Let_def)
  have q: "to_double (33 / (13841203 / 2 ^ 22)) = (5629499615557199 / 2 ^ 49)"
    unfolding to_double_def 
    by (subst round_to_scaled [where n = 49]) (simp_all add: round_half_even_def Let_def)
  have s: "to_double ((5629499615557199 / 2 ^ 49) - RL_VALUE) = (81344079 / 2 ^ 49)"
    unfolding to_double_def RL_VALUE_def
    by (subst round_to_scaled [where n = 75]) (simp_all add: round_half_even_def Let_def)
  have rs: "to_float (81344079 / 2 ^ 49) = (5084005 / 2 ^ 45)"
    unfolding to_float_def 
    by (subst round_to_scaled [where n = 46]) (simp_all add: round_half_even_def Let_def)
  have raw: "raw_Rs 4095 = (5084005 / 2 ^ 45)"
    by (simp only: raw_Rs_def voltage to_double_3_3 t q s rs)
  from voltage raw show ?thesis by simp
qed

lemma raw_Rs_5000: "adc_voltage 5000 = (8450063 / 2 ^ 21) \<and> raw_Rs 5000 = (- (3795845 / 2 ^ 21))"
proof -
  have d1: "to_double (real_of_int 5000 / 4095.0) = (1374725160980005 / 2 ^ 50)"
    unfolding to_double_def 
    by (subst round_to_scaled [where n = 52]) (simp_all add: round_half_even_def Let_def)
  have d2: "to_double ((1374725160980005 / 2 ^ 50) * (3715469692580659 / 2 ^ 50)) = (141768532226063 / 2 ^ 45)"
    unfolding to_double_def 
    by (subst round_to_scaled [where n = 50]) (simp_all add: round_half_even_def Let_def)
  have v: "to_float (141768532226063 / 2 ^ 45) = (8450063 / 2 ^ 21)"
    unfolding to_float_def 
    by (subst round_to_scaled [where n = 21]) (simp_all add: round_half_even_def Let_def)
  have voltage: "adc_voltage 5000 = (8450063 / 2 ^ 21)"
    by (simp only: adc_voltage_def d1 to_double_3_3 d2 v)
  have t: "to_double ((3715469692580659 / 2 ^ 50) * RL_VALUE) = 33"
    unfolding to_double_def RL_VALUE_def
    by (subst round_to_scaled [where n = 47]) (simp_all add: round_half_even_def Let_def)
  have q: "to_double (33 / (8450063 / 2 ^ 21)) = (4610560120519169 / 2 ^ 49)"
    unfolding to_double_def 
    by (subst round_to_scaled [where n = 49]) (simp_all add: round_half_even_def Let_def)
  have s: "to_double ((4610560120519169 / 2 ^ 49) - RL_VALUE) = (- (1018939413693951 / 2 ^ 49))"
    unfolding to_double_def RL_VALUE_def
    by (subst round_to_scaled [where n = 52]) (simp_all add: round_half_even_def Let_def)
  have rs: "to_float (- (1018939413693951 / 2 ^ 49)) = (- (3795845 / 2 ^ 21))"
    unfolding to_float_def 
    by (subst round_to_scaled [where n = 23]) (simp_all add: round_half_even_def Let_def)
  have raw: "raw_Rs 5000 = (- (3795845 / 2 ^ 21))"
    by (simp only: raw_Rs_def voltage to_double_3_3 t q s rs)
  from voltage raw show ?thesis by simp
qed


subsection \<open>Resistance\<close>

lemma hitungRs_pos: "0 < hitungRs adcValue"
  by (simp add: hitungRs_def Let_def float_0_1)

lemma adc_voltage_pos:
  assumes "1 \<le> adcValue"
  shows "0 < adc_voltage adcValue"
proof -
  define d1 where "d1 = to_double (real_of_int adcValue / 4095.0)"
  define d33 where "d33 = to_double 3.3"
  have small: "(2::real) powi (- 12) = 1 / 4096"
    using powi_neg_nat [of 12] by simp
  have "1 \<le> real_of_int adcValue"
    using assms by simp
  then have "1 / 4095 \<le> real_of_int adcValue / 4095.0"
    by (simp add: divide_right_mono)
  then have "2 powi (- 12) \<le> real_of_int adcValue / 4095.0"
    unfolding small by simp
  then have d1: "2 powi (- 12) \<le> d1"
    unfolding d1_def by (intro to_double_ge_pow2) simp_all
  then have d1_pos: "0 < d1"
    by (rule powi_le_pos)
  have "1 \<le> d33"
    unfolding d33_def to_double_3_3 by simp
  then have "d1 * 1 \<le> d1 * d33"
    using d1_pos by (intro mult_left_mono) simp_all
  then have "2 powi (- 12) \<le> d1 * d33"
    using d1 by linarith
  then have "2 powi (- 12) \<le> to_double (d1 * d33)"
    by (intro to_double_ge_pow2) simp_all
  then have "2 powi (- 12) \<le> to_float (to_double (d1 * d33))"
    by (intro to_float_ge_pow2) simp_all
  then have "2 powi (- 12) \<le> adc_voltage adcValue"
    by (simp only: adc_voltage_def d1_def d33_def)
  then show ?thesis
    by (rule powi_le_pos)
qed

lemma thirty_three: "to_double (to_double 3.3 * RL_VALUE) = 33"
  unfolding to_double_3_3
  unfolding to_double_def RL_VALUE_def
  by (subst round_to_scaled [where n = 47]) (simp_all add: round_half_even_def Let_def)

text \<open>
  Below 4095 the rounded voltage stays under 3.2992, so the quotient stays above 10.002
  and the computed resistance above \<open>1 / 512\<close>.
\<close>

lemma raw_Rs_below_4095:
  assumes lo: "1 \<le> adcValue" and hi: "adcValue \<le> 4094"
  shows "1 / 512 \<le> raw_Rs adcValue" and "raw_Rs adcValue \<le> 135161"
proof -
  define x0 where "x0 = real_of_int adcValue / 4095.0"
  define d1 where "d1 = to_double x0"
  define d2 where "d2 = to_double (d1 * to_double 3.3)"
  define v where "v = to_float d2"
  define q where "q = to_double (33 / v)"
  have p12: "(2::real) powi (- 12) = 1 / 4096"
    using powi_neg_nat [of 12] by simp
  have p9: "(2::real) powi (- 9) = 1 / 512"
    using powi_neg_nat [of 9] by simp
  have v_eq: "v = adc_voltage adcValue"
    by (simp only: v_def d2_def d1_def x0_def adc_voltage_def)
  have x0_lo: "1 / 4095 \<le> x0" and x0_hi: "x0 \<le> 4094 / 4095"
    using lo hi by (simp_all add: x0_def divide_right_mono)
  have x0_n: "2 powi (- 1022) \<le> \<bar>x0\<bar>"
  proof -
    have "(2::real) powi (- 1022) \<le> 2 powi (- 12)"
      by (rule powi_mono_le) simp
    with x0_lo show ?thesis unfolding p12 by simp
  qed
  have d1_lo: "2 powi (- 12) \<le> d1"
    unfolding d1_def using x0_lo by (intro to_double_ge_pow2) (simp_all add: p12)
  have d1_hi: "d1 \<le> 4094 / 4095 + 1 / 2 ^ 53"
  proof -
    have "\<bar>d1 - x0\<bar> \<le> \<bar>x0\<bar> / 2 ^ 53"
      unfolding d1_def by (rule to_double_error [OF x0_n])
    moreover have "\<bar>x0\<bar> / 2 ^ 53 \<le> 1 / 2 ^ 53"
      using x0_lo x0_hi by (intro divide_right_mono) simp_all
    ultimately show ?thesis
      using x0_hi by linarith
  qed
  have d1_pos: "0 < d1"
    using d1_lo by (rule powi_le_pos)
  have y1_lo: "2 powi (- 12) \<le> d1 * to_double 3.3"
  proof -
    have "1 \<le> to_double 3.3"
      unfolding to_double_3_3 by simp
    then have "d1 * 1 \<le> d1 * to_double 3.3"
      using d1_pos by (intro mult_left_mono) simp_all
    with d1_lo show ?thesis by linarith
  qed
  have y1_hi: "d1 * to_double 3.3 \<le> (4094 / 4095 + 1 / 2 ^ 53) * 3.3"
  proof -
    have "to_double 3.3 \<le> (3.3::real)"
      unfolding to_double_3_3 by simp
    moreover have "(0::real) \<le> to_double 3.3"
      unfolding to_double_3_3 by simp
    ultimately show ?thesis
      using d1_hi d1_pos by (intro mult_mono) simp_all
  qed
  have d2_lo: "2 powi (- 12) \<le> d2"
    unfolding d2_def using y1_lo by (intro to_double_ge_pow2) simp_all
  have d2_hi: "d2 \<le> (4094 / 4095 + 1 / 2 ^ 53) * 3.3 + 4 / 2 ^ 53"
  proof -
    have n: "2 powi (- 1022) \<le> \<bar>d1 * to_double 3.3\<bar>"
    proof -
      have "(2::real) powi (- 1022) \<le> 2 powi (- 12)"
        by (rule powi_mono_le) simp
      with y1_lo show ?thesis by simp
    qed
    have "\<bar>d2 - d1 * to_double 3.3\<bar> \<le> \<bar>d1 * to_double 3.3\<bar> / 2 ^ 53"
      unfolding d2_def by (rule to_double_error [OF n])
    moreover have "\<bar>d1 * to_double 3.3\<bar> \<le> 4"
      using y1_hi y1_lo powi_le_pos [OF y1_lo] by simp
    then have "\<bar>d1 * to_double 3.3\<bar> / 2 ^ 53 \<le> 4 / 2 ^ 53"
      by (intro divide_right_mono) simp_all
    ultimately show ?thesis
      using y1_hi by linarith
  qed
  have v_lo: "2 powi (- 12) \<le> v"
    unfolding v_def using d2_lo by (intro to_float_ge_pow2) simp_all
  have v_pos: "0 < v"
    using v_lo by (rule powi_le_pos)
  have v_hi: "v \<le> 32992 / 10000"
  proof -
    have n: "2 powi (- 126) \<le> \<bar>d2\<bar>"
    proof -
      have "(2::real) powi (- 126) \<le> 2 powi (- 12)"
        by (rule powi_mono_le) simp
      with d2_lo show ?thesis by simp
    qed
    have "\<bar>v - d2\<bar> \<le> \<bar>d2\<bar> / 2 ^ 24"
      unfolding v_def by (rule to_float_error [OF n])
    moreover have "\<bar>d2\<bar> \<le> 4"
      using d2_hi d2_lo powi_le_pos [OF d2_lo] by simp
    then have "\<bar>d2\<bar> / 2 ^ 24 \<le> 4 / 2 ^ 24"
      by (intro divide_right_mono) simp_all
    ultimately have "v \<le> (4094 / 4095 + 1 / 2 ^ 53) * 3.3 + 4 / 2 ^ 53 + 4 / 2 ^ 24"
      using d2_hi by linarith
    also have "\<dots> \<le> 32992 / 10000"
      by simp
    finally show ?thesis .
  qed
  have quot_lo: "100024 / 10000 \<le> 33 / v"
  proof -
    have "100024 / 10000 * v \<le> 100024 / 10000 * (32992 / 10000)"
      using v_hi by (intro mult_left_mono) simp_all
    also have "\<dots> \<le> 33"
      by simp
    finally show ?thesis
      using v_pos by (simp add: pos_le_divide_eq)
  qed
  have quot_hi: "33 / v \<le> 135168"
  proof -
    have "33 \<le> 135168 * (1 / 4096 :: real)" by simp
    also have "\<dots> \<le> 135168 * v"
      using v_lo unfolding p12 by (intro mult_left_mono) simp_all
    finally show ?thesis
      using v_pos by (simp add: pos_divide_le_eq)
  qed
  have quot_n: "2 powi (- 1022) \<le> \<bar>33 / v\<bar>"
  proof -
    have "(2::real) powi (- 1022) \<le> 2 powi 0"
      by (rule powi_mono_le) simp
    moreover have "(2::real) powi 0 = 1"
      by simp
    moreover have "\<bar>33 / v\<bar> = 33 / v"
      using v_pos by simp
    ultimately show ?thesis
      using quot_lo by linarith
  qed
  have q_err: "\<bar>q - 33 / v\<bar> \<le> 1 / 10000"
  proof -
    have "\<bar>q - 33 / v\<bar> \<le> \<bar>33 / v\<bar> / 2 ^ 53"
      unfolding q_def by (rule to_double_error [OF quot_n])
    moreover have "\<bar>33 / v\<bar> \<le> 135168"
      using quot_hi quot_lo by simp
    then have "\<bar>33 / v\<bar> / 2 ^ 53 \<le> 135168 / 2 ^ 53"
      by (intro divide_right_mono) simp_all
    moreover have "(135168::real) / 2 ^ 53 \<le> 1 / 10000"
      by simp
    ultimately show ?thesis
      by linarith
  qed
  have q_lo: "10002 / 1000 \<le> q" and q_hi: "q \<le> 135169"
    using q_err quot_lo quot_hi by linarith+
  define s where "s = to_double (q - RL_VALUE)"
  have diff_lo: "2 powi (- 9) \<le> q - RL_VALUE" and diff_hi: "q - RL_VALUE \<le> 135159"
    unfolding p9 RL_VALUE_def using q_lo q_hi by simp_all
  have diff_n: "2 powi (- 1022) \<le> \<bar>q - RL_VALUE\<bar>"
  proof -
    have "(2::real) powi (- 1022) \<le> 2 powi (- 9)"
      by (rule powi_mono_le) simp
    moreover have "0 < q - RL_VALUE"
      using diff_lo by (rule powi_le_pos)
    ultimately show ?thesis
      using diff_lo by linarith
  qed
  have s_lo: "2 powi (- 9) \<le> s"
    unfolding s_def using diff_lo by (intro to_double_ge_pow2) simp_all
  have s_hi: "s \<le> 135160"
  proof -
    have "\<bar>s - (q - RL_VALUE)\<bar> \<le> \<bar>q - RL_VALUE\<bar> / 2 ^ 53"
      unfolding s_def by (rule to_double_error [OF diff_n])
    moreover have "\<bar>q - RL_VALUE\<bar> \<le> 135159"
      using diff_hi powi_le_pos [OF diff_lo] by simp
    then have "\<bar>q - RL_VALUE\<bar> / 2 ^ 53 \<le> 135159 / 2 ^ 53"
      by (intro divide_right_mono) simp_all
    moreover have "(135159::real) / 2 ^ 53 \<le> 1"
      by simp
    ultimately show ?thesis
      using diff_hi by linarith
  qed
  have s_n: "2 powi (- 126) \<le> \<bar>s\<bar>"
  proof -
    have "(2::real) powi (- 126) \<le> 2 powi (- 9)"
      by (rule powi_mono_le) simp
    moreover have "0 < s"
      using s_lo by (rule powi_le_pos)
    ultimately show ?thesis
      using s_lo by linarith
  qed
  have raw: "raw_Rs adcValue = to_float s"
    by (simp only: raw_Rs_def thirty_three q_def v_eq s_def)
  have "2 powi (- 9) \<le> to_float s"
    using s_lo by (intro to_float_ge_pow2) simp_all
  then show "1 / 512 \<le> raw_Rs adcValue"
    unfolding raw p9 .
  have "\<bar>to_float s - s\<bar> \<le> \<bar>s\<bar> / 2 ^ 24"
    by (rule to_float_error [OF s_n])
  moreover have "\<bar>s\<bar> \<le> 135160"
    using s_hi powi_le_pos [OF s_lo] by simp
  then have "\<bar>s\<bar> / 2 ^ 24 \<le> 135160 / 2 ^ 24"
    by (intro divide_right_mono) simp_all
  moreover have "(135160::real) / 2 ^ 24 \<le> 1"
    by simp
  ultimately show "raw_Rs adcValue \<le> 135161"
    unfolding raw using s_hi by linarith
qed

lemma raw_Rs_in_range:
  assumes "1 \<le> adcValue" and "adcValue \<le> 4095"
  shows "0 < raw_Rs adcValue" and "raw_Rs adcValue \<le> 135161"
proof -
  have "0 < raw_Rs adcValue \<and> raw_Rs adcValue \<le> 135161"
  proof (cases "adcValue = 4095")
    case True
    then show ?thesis
      using raw_Rs_4095 by simp
  next
    case False
    with assms have below: "1 \<le> adcValue" "adcValue \<le> 4094"
      by simp_all
    have "1 / 512 \<le> raw_Rs adcValue" and "raw_Rs adcValue \<le> 135161"
      by (rule raw_Rs_below_4095 [OF below])+
    then show ?thesis by simp
  qed
  then show "0 < raw_Rs adcValue" and "raw_Rs adcValue \<le> 135161"
    by simp_all
qed

text \<open>
  Claim C4. \<^verbatim>\<open>hitungRs(0)\<close> is exactly the sentinel 999999. For an ADC code from 1 to
  4095 the voltage that is divided by is positive (no division by zero), and the computed
  resistance is positive and at most 135161, far inside the range of \<^verbatim>\<open>float\<close>, and is
  what the function returns. A computed resistance that is not positive (which takes a
  code outside that range) is replaced by the floor, the \<^verbatim>\<open>float\<close> nearest to 0.1, which
  is \<open>13421773 / 2 ^ 27\<close>; a positive one is returned as it is.
\<close>

theorem hitungRs_positive:
  "hitungRs 0 = 999999
   \<and> (1 \<le> adcValue \<and> adcValue \<le> 4095 \<longrightarrow>
        0 < adc_voltage adcValue \<and> 0 < hitungRs adcValue \<and> hitungRs adcValue \<le> 135161
        \<and> hitungRs adcValue = raw_Rs adcValue)
   \<and> (adcValue \<noteq> 0 \<and> raw_Rs adcValue \<le> 0 \<longrightarrow> hitungRs adcValue = 13421773 / 2 ^ 27)
   \<and> (adcValue \<noteq> 0 \<and> 0 < raw_Rs adcValue \<longrightarrow> hitungRs adcValue = raw_Rs adcValue)
   \<and> \<bar>13421773 / 2 ^ 27 - (0.1::real)\<bar> < 1 / 10 ^ 8"
proof -
  have sentinel: "hitungRs 0 = 999999"
    by (simp add: hitungRs_def)
  have kept: "adcValue \<noteq> 0 \<and> 0 < raw_Rs adcValue \<longrightarrow> hitungRs adcValue = raw_Rs adcValue"
    by (simp add: hitungRs_def Let_def)
  have in_range: "1 \<le> adcValue \<and> adcValue \<le> 4095 \<longrightarrow>
      0 < adc_voltage adcValue \<and> 0 < hitungRs adcValue \<and> hitungRs adcValue \<le> 135161
      \<and> hitungRs adcValue = raw_Rs adcValue"
  proof
    assume range: "1 \<le> adcValue \<and> adcValue \<le> 4095"
    then have raw: "0 < raw_Rs adcValue" "raw_Rs adcValue \<le> 135161"
      by (simp_all add: raw_Rs_in_range)
    moreover have "hitungRs adcValue = raw_Rs adcValue"
      using range raw(1) kept by simp
    moreover have "0 < adc_voltage adcValue"
      using range by (simp add: adc_voltage_pos)
    ultimately show "0 < adc_voltage adcValue \<and> 0 < hitungRs adcValue
        \<and> hitungRs adcValue \<le> 135161 \<and> hitungRs adcValue = raw_Rs adcValue"
      by simp
  qed
  have floor: "adcValue \<noteq> 0 \<and> raw_Rs adcValue \<le> 0 \<longrightarrow> hitungRs adcValue = 13421773 / 2 ^ 27"
    by (simp add: hitungRs_def Let_def float_0_1)
  have near: "\<bar>13421773 / 2 ^ 27 - (0.1::real)\<bar> < 1 / 10 ^ 8"
    by simp
  from sentinel in_range floor kept near show ?thesis by blast
qed

theorem hitungRs_positive_witness:
  "(1::int) \<le> 2000 \<and> (2000::int) \<le> 4095 \<and> 0 < adc_voltage 2000
   \<and> raw_Rs 2000 = 10983833 / 2 ^ 20 \<and> hitungRs 2000 = 10983833 / 2 ^ 20
   \<and> (1::int) \<le> 4095 \<and> (4095::int) \<le> 4095 \<and> adc_voltage 4095 = 13841203 / 2 ^ 22
   \<and> raw_Rs 4095 = 5084005 / 2 ^ 45 \<and> hitungRs 4095 = 5084005 / 2 ^ 45
   \<and> (5000::int) \<noteq> 0 \<and> raw_Rs 5000 \<le> 0 \<and> hitungRs 5000 = 13421773 / 2 ^ 27"
  using hitungRs_positive [of 2000] hitungRs_positive [of 4095] hitungRs_positive [of 5000]
    raw_Rs_2000 raw_Rs_4095 raw_Rs_5000
  by simp

subsection \<open>Concentration\<close>

lemma MQ135_A_float: "to_float (to_double MQ135_A) = (7641633 / 2 ^ 16)"
proof -
  have d: "to_double MQ135_A = (8205141107752331 / 2 ^ 46)"
    unfolding MQ135_A_def to_double_def
    by (subst round_to_scaled [where n = 46]) (simp_all add: round_half_even_def Let_def)
  have f: "to_float (8205141107752331 / 2 ^ 46) = (7641633 / 2 ^ 16)"
    unfolding to_float_def
    by (subst round_to_scaled [where n = 17]) (simp_all add: round_half_even_def Let_def)
  show ?thesis
    by (simp only: d f)
qed

lemma MQ7_A_float: "to_float (to_double MQ7_A) = (12981607 / 2 ^ 17)"
proof -
  have d: "to_double MQ7_A = (3484723543547681 / 2 ^ 45)"
    unfolding MQ7_A_def to_double_def
    by (subst round_to_scaled [where n = 46]) (simp_all add: round_half_even_def Let_def)
  have f: "to_float (3484723543547681 / 2 ^ 45) = (12981607 / 2 ^ 17)"
    unfolding to_float_def
    by (subst round_to_scaled [where n = 17]) (simp_all add: round_half_even_def Let_def)
  show ?thesis
    by (simp only: d f)
qed

lemma MQ7_B_float: "to_float (to_double MQ7_B) = (- (12733907 / 2 ^ 23))"
proof -
  have d: "to_double MQ7_B = (- (6836464234348413 / 2 ^ 52))"
    unfolding MQ7_B_def to_double_def
    by (subst round_to_scaled [where n = 52]) (simp_all add: round_half_even_def Let_def)
  have f: "to_float (- (6836464234348413 / 2 ^ 52)) = (- (12733907 / 2 ^ 23))"
    unfolding to_float_def
    by (subst round_to_scaled [where n = 23]) (simp_all add: round_half_even_def Let_def)
  show ?thesis
    by (simp only: d f)
qed

lemma MQ9_A_float: "to_float (to_double MQ9_A) = (2001 / 2 ^ 1)"
proof -
  have d: "to_double MQ9_A = (2001 / 2 ^ 1)"
    unfolding MQ9_A_def to_double_def
    by (subst round_to_scaled [where n = 43]) (simp_all add: round_half_even_def Let_def)
  have f: "to_float (2001 / 2 ^ 1) = (2001 / 2 ^ 1)"
    unfolding to_float_def
    by (subst round_to_scaled [where n = 14]) (simp_all add: round_half_even_def Let_def)
  show ?thesis
    by (simp only: d f)
qed

lemma coefficients_nonzero:
  "to_float (to_double MQ135_A) \<noteq> 0"
  "to_float (to_double MQ7_A) \<noteq> 0"
  "to_float (to_double MQ9_A) \<noteq> 0"
  by (simp_all add: MQ135_A_float MQ7_A_float MQ9_A_float)

lemma or_infinity_not_NaN: "or_infinity m r \<noteq> NaN"
  by (simp add: or_infinity_def)

lemma real_to_float_not_NaN: "real_to_float x \<noteq> NaN"
  by (simp add: real_to_float_def or_infinity_not_NaN)

lemma narrow_to_float_not_NaN: "c \<noteq> NaN \<Longrightarrow> narrow_to_float c \<noteq> NaN"
  by (cases c) (simp_all add: real_to_float_not_NaN)

lemma c_pow_not_NaN:
  assumes "\<not> cf_le ratio 0" and "ratio \<noteq> NaN"
  shows "c_pow ratio b \<noteq> NaN"
  using assms
  by (cases ratio) (simp_all add: real_to_double_def or_infinity_not_NaN)

lemma times_double_not_NaN:
  assumes "a \<noteq> 0" and "c \<noteq> NaN"
  shows "times_double a c \<noteq> NaN"
  using assms by (cases c) (auto simp add: real_to_double_def or_infinity_not_NaN)

lemma threshold_double: "to_double MIN_PPM_THRESHOLD = 3602879701896397 / 2 ^ 55"
  by (simp only: MIN_PPM_THRESHOLD_def to_double_0_1)

lemma threshold_float: "to_float (to_double MIN_PPM_THRESHOLD) = 13421773 / 2 ^ 27"
  by (simp only: MIN_PPM_THRESHOLD_def float_0_1)

lemma clamp_cases:
  assumes "ppm \<noteq> NaN"
  shows "case (let ppm = (if cf_less ppm (to_double MIN_PPM_THRESHOLD)
                           then Num (to_float (to_double MIN_PPM_THRESHOLD)) else ppm);
                   ppm = (if cf_greater ppm 10000 then Num 10000 else ppm)
               in ppm) of Num x \<Rightarrow> 0.1 \<le> x \<and> x \<le> 10000 | _ \<Rightarrow> False"
  using assms
  apply (simp only: threshold_float)
  apply (simp only: threshold_double)
  apply (cases ppm)
     apply (simp_all add: Let_def)
  done

lemma Num_caseD:
  assumes "case c of Num x \<Rightarrow> P x | _ \<Rightarrow> False"
  shows "\<exists>x. c = Num x \<and> P x"
  using assms by (cases c) simp_all

lemma hitungKonsentrasi_valid:
  assumes Ro: "0 < Ro" and ratio: "\<not> cf_le (real_to_float (Rs / Ro)) 0" and a: "a \<noteq> 0"
  shows "\<exists>x. hitungKonsentrasi Rs Ro a b = Num x \<and> 0.1 \<le> x \<and> x \<le> 10000"
proof -
  let ?ratio = "real_to_float (Rs / Ro)"
  let ?ppm = "narrow_to_float (times_double a (c_pow ?ratio b))"
  have "c_pow ?ratio b \<noteq> NaN"
    using ratio real_to_float_not_NaN by (rule c_pow_not_NaN)
  then have "times_double a (c_pow ?ratio b) \<noteq> NaN"
    using a by (intro times_double_not_NaN)
  then have "?ppm \<noteq> NaN"
    by (rule narrow_to_float_not_NaN)
  then have "\<exists>x. (let ppm = (if cf_less ?ppm (to_double MIN_PPM_THRESHOLD)
                           then Num (to_float (to_double MIN_PPM_THRESHOLD)) else ?ppm);
                ppm = (if cf_greater ppm 10000 then Num 10000 else ppm)
            in ppm) = Num x \<and> 0.1 \<le> x \<and> x \<le> 10000"
    by (intro Num_caseD clamp_cases)
  then show ?thesis
    using Ro ratio by (simp add: hitungKonsentrasi_def Let_def)
qed

lemma hitungKonsentrasi_cases:
  assumes "a \<noteq> 0"
  shows "hitungKonsentrasi Rs Ro a b = Num (- 1)
   \<or> (\<exists>x. hitungKonsentrasi Rs Ro a b = Num x \<and> 0.1 \<le> x \<and> x \<le> 10000)"
proof (cases "Ro \<le> 0 \<or> cf_le (real_to_float (Rs / Ro)) 0")
  case True
  then have "hitungKonsentrasi Rs Ro a b = Num (- 1)"
    by (auto simp add: hitungKonsentrasi_def Let_def)
  then show ?thesis ..
next
  case False
  then show ?thesis
    using assms hitungKonsentrasi_valid [of Ro Rs a b] by simp
qed

lemma hitungKonsentrasi_number:
  assumes "a \<noteq> 0"
  shows "\<exists>x. hitungKonsentrasi Rs Ro a b = Num x"
  using hitungKonsentrasi_cases [OF assms, of Rs Ro b] by blast

text \<open>
  Half of the least positive \<^verbatim>\<open>float\<close>, \<open>1 / 2 ^ 150\<close>, is where rounding to zero stops:
  a quotient up to it underflows to 0, a larger one is a positive \<^verbatim>\<open>float\<close>.
\<close>

lemma to_float_underflow:
  assumes "0 \<le> x" and "x * 2 ^ 150 \<le> 1"
  shows "to_float x = 0"
proof (cases "x = 0")
  case True
  then show ?thesis by (simp add: to_float_def round_to_def)
next
  case False
  have "x * 2 ^ 126 \<le> x * 2 ^ 150"
    using assms(1) by (intro mult_left_mono) simp_all
  moreover have "x * 2 ^ 150 < x * 2 ^ 150 * 2"
    using assms(1) False by simp
  ultimately have small: "\<bar>x\<bar> * 2 ^ 126 < 1"
    using assms by simp
  have "x * 2 ^ 149 \<le> 1 / 2"
    using assms(2) by simp
  moreover have "0 \<le> x * 2 ^ 149"
    using assms(1) by simp
  ultimately have "round_half_even (x * 2 ^ 149) = 0"
    by (intro round_half_even_zero)
  then show ?thesis
    unfolding to_float_def
    by (subst round_to_subnormal [where m = 126 and n = 149]) (use False small in simp_all)
qed

lemma to_float_positive:
  assumes "1 < x * 2 ^ 150"
  shows "0 < to_float x"
proof (cases "2 powi (- 126) \<le> x")
  case True
  then have "2 powi (- 126) \<le> to_float x"
    by (intro to_float_ge_pow2) simp_all
  then show ?thesis
    by (rule powi_le_pos)
next
  case False
  have pos: "0 < x"
    using assms by (simp add: zero_less_mult_iff)
  have "x < 1 / 2 ^ 126"
    using False powi_neg_nat [of 126] by simp
  then have small: "\<bar>x\<bar> * 2 ^ 126 < 1"
    using pos by (simp add: field_simps)
  have "1 / 2 < x * 2 ^ 149"
    using assms by simp
  then have "1 \<le> round_half_even (x * 2 ^ 149)"
    by (rule round_half_even_positive)
  then have "0 < real_of_int (round_half_even (x * 2 ^ 149)) / 2 ^ 149"
    by simp
  then show ?thesis
    unfolding to_float_def
    by (subst round_to_subnormal [where m = 126 and n = 149]) (use pos small in simp_all)
qed

lemma real_to_float_zero: "real_to_float 0 = Num 0"
  by (simp add: real_to_float_def to_float_def round_to_def or_infinity_def FLT_MAX_def)

lemma ratio_underflow:
  assumes "0 \<le> x" and "x * 2 ^ 150 \<le> 1"
  shows "cf_le (real_to_float x) 0"
  using to_float_underflow [OF assms]
  by (simp add: real_to_float_def or_infinity_def FLT_MAX_def)

lemma ratio_positive:
  assumes "1 < x * 2 ^ 150"
  shows "\<not> cf_le (real_to_float x) 0"
  using to_float_positive [OF assms]
  by (simp add: real_to_float_def or_infinity_def FLT_MAX_def)

text \<open>One run with the coefficients of the MQ7 channel and a ratio of 1.\<close>

lemma hitungKonsentrasi_at_ratio_1:
  "hitungKonsentrasi 10 10 (to_float (to_double MQ7_A)) (to_float (to_double MQ7_B))
     = Num (12981607 / 2 ^ 17)"
proof -
  have one_f: "to_float 1 = 1"
    unfolding to_float_def
    by (subst round_to_scaled [where n = 23]) (simp_all add: round_half_even_def Let_def)
  have one_d: "to_double 1 = 1"
    unfolding to_double_def
    by (subst round_to_scaled [where n = 52]) (simp_all add: round_half_even_def Let_def)
  have a_d: "to_double (12981607 / 2 ^ 17) = 12981607 / 2 ^ 17"
    unfolding to_double_def
    by (subst round_to_scaled [where n = 46]) (simp_all add: round_half_even_def Let_def)
  have a_f: "to_float (12981607 / 2 ^ 17) = 12981607 / 2 ^ 17"
    unfolding to_float_def
    by (subst round_to_scaled [where n = 17]) (simp_all add: round_half_even_def Let_def)
  have rf_one: "real_to_float 1 = Num 1"
    by (simp add: real_to_float_def one_f or_infinity_def FLT_MAX_def)
  have rd_one: "real_to_double 1 = Num 1"
    by (simp add: real_to_double_def one_d or_infinity_def DBL_MAX_def)
  have "real_to_double (12981607 / 2 ^ 17) = Num (12981607 / 2 ^ 17)"
    unfolding real_to_double_def a_d by (simp add: or_infinity_def DBL_MAX_def)
  then have rd_a: "real_to_double (12981607 / 131072) = Num (12981607 / 131072)"
    by simp
  have "real_to_float (12981607 / 2 ^ 17) = Num (12981607 / 2 ^ 17)"
    unfolding real_to_float_def a_f by (simp add: or_infinity_def FLT_MAX_def)
  then have rf_a: "real_to_float (12981607 / 131072) = Num (12981607 / 131072)"
    by simp
  have "hitungKonsentrasi 10 10 (12981607 / 2 ^ 17) (to_float (to_double MQ7_B))
      = Num (12981607 / 2 ^ 17)"
    unfolding hitungKonsentrasi_def
    apply (simp only: threshold_float)
    apply (simp only: threshold_double Let_def)
    apply (simp add: rf_one rd_one rd_a rf_a)
    done
  then show ?thesis
    by (simp only: MQ7_A_float)
qed

text \<open>
  Why the coefficient must not be 0: with \<open>a = 0\<close> and a quotient that overflows, the
  product is zero times infinity, and the result is NaN, which passes both clamps.
\<close>

lemma hitungKonsentrasi_NaN:
  "hitungKonsentrasi (2 ^ 100) (1 / 2 ^ 100) 0 1 = NaN"
proof -
  have "to_float (2 ^ 200) = 2 ^ 200"
    unfolding to_float_def
    by (subst round_to_whole [where n = 177]) (simp_all add: round_half_even_def Let_def)
  then have "real_to_float (2 ^ 200) = PosInf"
    unfolding real_to_float_def by (simp add: or_infinity_def FLT_MAX_def)
  moreover have "(2::real) ^ 100 / (1 / 2 ^ 100) = 2 ^ 200"
    by simp
  ultimately have "real_to_float (2 ^ 100 / (1 / 2 ^ 100)) = PosInf"
    by (simp only:)
  then show ?thesis
    unfolding hitungKonsentrasi_def by (simp add: Let_def)
qed

text \<open>
  Claim C1, as amended. \<^verbatim>\<open>hitungKonsentrasi\<close> returns the sentinel \<open>-1\<close> when \<open>Ro \<le> 0\<close> or
  when the \<^verbatim>\<open>float\<close> quotient \<open>Rs / Ro\<close> is not positive; for positive \<open>Rs\<close> and \<open>Ro\<close> this
  is the case exactly when the quotient underflows to 0, that is, when it is at most
  \<open>1 / 2 ^ 150\<close>. For positive \<open>Rs\<close> and \<open>Ro\<close> with a larger quotient and a coefficient \<open>a\<close>
  other than 0 the result is a number in \<open>[0.1, 10000]\<close>, whatever \<open>b\<close> is.
\<close>

theorem hitungKonsentrasi_range:
  "(Ro \<le> 0 \<or> cf_le (real_to_float (Rs / Ro)) 0 \<longrightarrow> hitungKonsentrasi Rs Ro a b = Num (- 1))
   \<and> (0 < Rs \<and> 0 < Ro \<and> (Rs / Ro) * 2 ^ 150 \<le> 1 \<longrightarrow> hitungKonsentrasi Rs Ro a b = Num (- 1))
   \<and> (0 < Rs \<and> 0 < Ro \<and> 1 < (Rs / Ro) * 2 ^ 150 \<and> a \<noteq> 0 \<longrightarrow>
        (\<exists>ppm. hitungKonsentrasi Rs Ro a b = Num ppm \<and> 0.1 \<le> ppm \<and> ppm \<le> 10000))"
proof (intro conjI impI)
  assume "Ro \<le> 0 \<or> cf_le (real_to_float (Rs / Ro)) 0"
  then show "hitungKonsentrasi Rs Ro a b = Num (- 1)"
    by (auto simp add: hitungKonsentrasi_def Let_def)
next
  assume h: "0 < Rs \<and> 0 < Ro \<and> (Rs / Ro) * 2 ^ 150 \<le> 1"
  then have "cf_le (real_to_float (Rs / Ro)) 0"
    by (intro ratio_underflow) simp_all
  then show "hitungKonsentrasi Rs Ro a b = Num (- 1)"
    by (simp add: hitungKonsentrasi_def Let_def)
next
  assume h: "0 < Rs \<and> 0 < Ro \<and> 1 < (Rs / Ro) * 2 ^ 150 \<and> a \<noteq> 0"
  then have "\<not> cf_le (real_to_float (Rs / Ro)) 0"
    by (intro ratio_positive) simp
  with h show "\<exists>ppm. hitungKonsentrasi Rs Ro a b = Num ppm \<and> 0.1 \<le> ppm \<and> ppm \<le> 10000"
    by (intro hitungKonsentrasi_valid) simp_all
qed

theorem hitungKonsentrasi_range_witness:
  "hitungKonsentrasi 10 0 (to_float (to_double MQ7_A)) (to_float (to_double MQ7_B)) = Num (- 1)
   \<and> hitungKonsentrasi 0 10 (to_float (to_double MQ7_A)) (to_float (to_double MQ7_B)) = Num (- 1)
   \<and> hitungKonsentrasi (1 / 2 ^ 100) (2 ^ 100)
        (to_float (to_double MQ7_A)) (to_float (to_double MQ7_B)) = Num (- 1)
   \<and> hitungKonsentrasi 10 10 (to_float (to_double MQ7_A)) (to_float (to_double MQ7_B))
        = Num (12981607 / 2 ^ 17)
   \<and> (0.1::real) \<le> 12981607 / 2 ^ 17 \<and> (12981607::real) / 2 ^ 17 \<le> 10000"
  using
    hitungKonsentrasi_range
      [of 0 10 "to_float (to_double MQ7_A)" "to_float (to_double MQ7_B)"]
    hitungKonsentrasi_range
      [of 10 0 "to_float (to_double MQ7_A)" "to_float (to_double MQ7_B)"]
    hitungKonsentrasi_range
      [of "2 ^ 100" "1 / 2 ^ 100" "to_float (to_double MQ7_A)" "to_float (to_double MQ7_B)"]
    hitungKonsentrasi_range
      [of 10 10 "to_float (to_double MQ7_A)" "to_float (to_double MQ7_B)"]
    hitungKonsentrasi_at_ratio_1
  by (simp add: real_to_float_zero)

text \<open>
  The claim C1 as stated fails: \<open>1 / 2 ^ 100\<close> and \<open>2 ^ 100\<close> are positive \<^verbatim>\<open>float\<close>
  values, their quotient underflows to 0 in \<^verbatim>\<open>float\<close>, and the result is the sentinel
  \<open>-1\<close>, not a value in \<open>[0.1, 10000]\<close>.
\<close>

theorem hitungKonsentrasi_underflow_counterexample:
  "(0::real) < 1 / 2 ^ 100 \<and> (0::real) < 2 ^ 100
   \<and> to_float (1 / 2 ^ 100) = 1 / 2 ^ 100 \<and> to_float (2 ^ 100) = 2 ^ 100
   \<and> real_to_float ((1 / 2 ^ 100) / 2 ^ 100) = Num 0
   \<and> hitungKonsentrasi (1 / 2 ^ 100) (2 ^ 100)
        (to_float (to_double MQ7_A)) (to_float (to_double MQ7_B)) = Num (- 1)
   \<and> \<not> (0.1::real) \<le> - 1"
proof -
  have small: "to_float (1 / 2 ^ 100) = 1 / 2 ^ 100"
    unfolding to_float_def
    by (subst round_to_scaled [where n = 123]) (simp_all add: round_half_even_def Let_def)
  have large: "to_float (2 ^ 100) = 2 ^ 100"
    unfolding to_float_def
    by (subst round_to_whole [where n = 77]) (simp_all add: round_half_even_def Let_def)
  have "to_float ((1 / 2 ^ 100) / 2 ^ 100) = 0"
    by (rule to_float_underflow) simp_all
  then have ratio: "real_to_float ((1 / 2 ^ 100) / 2 ^ 100) = Num 0"
    by (simp add: real_to_float_def or_infinity_def FLT_MAX_def)
  then have "hitungKonsentrasi (1 / 2 ^ 100) (2 ^ 100)
        (to_float (to_double MQ7_A)) (to_float (to_double MQ7_B)) = Num (- 1)"
    by (simp add: hitungKonsentrasi_def Let_def)
  with small large ratio show ?thesis
    by simp
qed

subsection \<open>Index\<close>



subsection \<open>Calibration\<close>

lemma kalibrasi_loop_sums:
  "i \<le> CALIBRATION_SAMPLES \<Longrightarrow>
   kalibrasi_loop rd i (s135, s7, s9) =
     (s135 + (\<Sum>k = i..<CALIBRATION_SAMPLES. hitungRs (fst (rd k))),
      s7 + (\<Sum>k = i..<CALIBRATION_SAMPLES. hitungRs (fst (snd (rd k)))),
      s9 + (\<Sum>k = i..<CALIBRATION_SAMPLES. hitungRs (snd (snd (rd k)))))"
proof (induction rd i "(s135, s7, s9)" arbitrary: s135 s7 s9 rule: kalibrasi_loop.induct)
  case (1 rd i sum_MQ135 sum_MQ7 sum_MQ9)
  show ?case
  proof (cases "i < CALIBRATION_SAMPLES")
    case True
    obtain a b c where rd: "rd i = (a, b, c)"
      by (cases "rd i") auto
    have step: "kalibrasi_loop rd i (sum_MQ135, sum_MQ7, sum_MQ9) =
        kalibrasi_loop rd (i + 1)
          (sum_MQ135 + hitungRs a, sum_MQ7 + hitungRs b, sum_MQ9 + hitungRs c)"
      using True rd by simp
    have ih: "kalibrasi_loop rd (i + 1)
          (sum_MQ135 + hitungRs a, sum_MQ7 + hitungRs b, sum_MQ9 + hitungRs c) =
        (sum_MQ135 + hitungRs a + (\<Sum>k = i + 1..<CALIBRATION_SAMPLES. hitungRs (fst (rd k))),
         sum_MQ7 + hitungRs b + (\<Sum>k = i + 1..<CALIBRATION_SAMPLES. hitungRs (fst (snd (rd k)))),
         sum_MQ9 + hitungRs c + (\<Sum>k = i + 1..<CALIBRATION_SAMPLES. hitungRs (snd (snd (rd k)))))"
      using True rd by (intro "1.hyps") simp_all
    show ?thesis
      unfolding step ih using True rd
      by (simp add: sum.atLeast_Suc_lessThan)
  next
    case False
    with "1.prems" show ?thesis by simp
  qed
qed

lemma kalibrasi_loop_total:
  "kalibrasi_loop rd 0 (0, 0, 0) =
     ((\<Sum>k < 50. hitungRs (fst (rd k))),
      (\<Sum>k < 50. hitungRs (fst (snd (rd k)))),
      (\<Sum>k < 50. hitungRs (snd (snd (rd k)))))"
proof -
  have "{0..<CALIBRATION_SAMPLES} = {..<50}"
    by (simp add: CALIBRATION_SAMPLES_def atLeast0LessThan)
  then show ?thesis
    using kalibrasi_loop_sums [of 0 rd 0 0 0] by simp
qed

lemma kalibrasiSensor_unfolded:
  "kalibrasiSensor rd d =
     tulisEEPROM
       (d\<lparr>Ro_MQ135 := ((\<Sum>k < 50. hitungRs (fst (rd k))) / 50) / 9.83,
          Ro_MQ7 := ((\<Sum>k < 50. hitungRs (fst (snd (rd k)))) / 50) / 9.83,
          Ro_MQ9 := ((\<Sum>k < 50. hitungRs (snd (snd (rd k)))) / 50) / 9.83\<rparr>)"
proof -
  have n: "real CALIBRATION_SAMPLES = 50"
    by (simp add: CALIBRATION_SAMPLES_def)
  show ?thesis
    by (simp only: kalibrasiSensor_def kalibrasi_loop_total prod.case n RO_CLEAN_AIR_FACTOR_def)
qed


lemma sum_hitungRs_pos: "0 < (\<Sum>k < (50::nat). hitungRs (f k))"
proof (rule sum_pos)
  show "finite {..<(50::nat)}" by simp
  have "(0::nat) \<in> {..<50}" by simp
  then show "{..<(50::nat)} \<noteq> {}" by blast
  show "\<And>i. i \<in> {..<(50::nat)} \<Longrightarrow> 0 < hitungRs (f i)" by (simp add: hitungRs_pos)
qed

lemma kalibrasiSensor_positive:
  "0 < Ro_MQ135 (kalibrasiSensor rd d) \<and> 0 < Ro_MQ7 (kalibrasiSensor rd d)
   \<and> 0 < Ro_MQ9 (kalibrasiSensor rd d)"
  unfolding kalibrasiSensor_unfolded
  by (simp add: tulisEEPROM_def Let_def sum_hitungRs_pos)

text \<open>
  Claim C5, as amended. Without the marker \<open>0xAB\<close> (store absent or marker mismatched)
  \<^verbatim>\<open>bacaEEPROM\<close> changes nothing, so after power-up the three baselines are the default
  10.0. With the marker it loads the three stored cells as they are, without validating
  them. The baselines that \<^verbatim>\<open>kalibrasiSensor\<close> computes and persists are strictly
  positive, and loading them after a restart gives them back. A baseline that is not
  positive is never divided by: \<^verbatim>\<open>hitungKonsentrasi\<close> answers it with the sentinel \<open>-1\<close>.
\<close>

theorem bacaEEPROM_baselines:
  "(cell_calib_flag e \<noteq> CALIB_MAGIC \<longrightarrow>
      Ro_MQ135 (bacaEEPROM (power_up e)) = 10.0
      \<and> Ro_MQ7 (bacaEEPROM (power_up e)) = 10.0
      \<and> Ro_MQ9 (bacaEEPROM (power_up e)) = 10.0)
   \<and> (cell_calib_flag (EEPROM d) \<noteq> CALIB_MAGIC \<longrightarrow> bacaEEPROM d = d)
   \<and> (cell_calib_flag (EEPROM d) = CALIB_MAGIC \<longrightarrow>
      Ro_MQ135 (bacaEEPROM d) = cell_Ro_MQ135 (EEPROM d)
      \<and> Ro_MQ7 (bacaEEPROM d) = cell_Ro_MQ7 (EEPROM d)
      \<and> Ro_MQ9 (bacaEEPROM d) = cell_Ro_MQ9 (EEPROM d))
   \<and> 0 < Ro_MQ135 (kalibrasiSensor rd d)
   \<and> 0 < Ro_MQ7 (kalibrasiSensor rd d)
   \<and> 0 < Ro_MQ9 (kalibrasiSensor rd d)
   \<and> Ro_MQ135 (bacaEEPROM (power_up (EEPROM (kalibrasiSensor rd d))))
       = Ro_MQ135 (kalibrasiSensor rd d)
   \<and> Ro_MQ7 (bacaEEPROM (power_up (EEPROM (kalibrasiSensor rd d))))
       = Ro_MQ7 (kalibrasiSensor rd d)
   \<and> Ro_MQ9 (bacaEEPROM (power_up (EEPROM (kalibrasiSensor rd d))))
       = Ro_MQ9 (kalibrasiSensor rd d)
   \<and> (Ro \<le> 0 \<longrightarrow> hitungKonsentrasi Rs Ro a b = Num (- 1))"
proof -
  have unmarked: "cell_calib_flag e \<noteq> CALIB_MAGIC \<longrightarrow>
      Ro_MQ135 (bacaEEPROM (power_up e)) = 10.0
      \<and> Ro_MQ7 (bacaEEPROM (power_up e)) = 10.0
      \<and> Ro_MQ9 (bacaEEPROM (power_up e)) = 10.0"
    by (simp add: bacaEEPROM_def power_up_def)
  have unchanged: "cell_calib_flag (EEPROM d) \<noteq> CALIB_MAGIC \<longrightarrow> bacaEEPROM d = d"
    by (simp add: bacaEEPROM_def)
  have loaded: "cell_calib_flag (EEPROM d) = CALIB_MAGIC \<longrightarrow>
      Ro_MQ135 (bacaEEPROM d) = cell_Ro_MQ135 (EEPROM d)
      \<and> Ro_MQ7 (bacaEEPROM d) = cell_Ro_MQ7 (EEPROM d)
      \<and> Ro_MQ9 (bacaEEPROM d) = cell_Ro_MQ9 (EEPROM d)"
    by (simp add: bacaEEPROM_def)
  have reload:
    "Ro_MQ135 (bacaEEPROM (power_up (EEPROM (kalibrasiSensor rd d))))
       = Ro_MQ135 (kalibrasiSensor rd d)"
    "Ro_MQ7 (bacaEEPROM (power_up (EEPROM (kalibrasiSensor rd d))))
       = Ro_MQ7 (kalibrasiSensor rd d)"
    "Ro_MQ9 (bacaEEPROM (power_up (EEPROM (kalibrasiSensor rd d))))
       = Ro_MQ9 (kalibrasiSensor rd d)"
    unfolding kalibrasiSensor_unfolded
    by (simp_all add: bacaEEPROM_def power_up_def tulisEEPROM_def Let_def)
  have guard: "Ro \<le> 0 \<longrightarrow> hitungKonsentrasi Rs Ro a b = Num (- 1)"
    by (simp add: hitungKonsentrasi_def)
  from unmarked unchanged loaded kalibrasiSensor_positive [of rd d] reload guard
  show ?thesis by blast
qed

theorem bacaEEPROM_baselines_witness:
  "Ro_MQ135 (bacaEEPROM (power_up unmarked_eeprom)) = 10.0
   \<and> Ro_MQ7 (bacaEEPROM (power_up unmarked_eeprom)) = 10.0
   \<and> Ro_MQ9 (bacaEEPROM (power_up unmarked_eeprom)) = 10.0
   \<and> bacaEEPROM serial_device = serial_device
   \<and> Ro_MQ135 (bacaEEPROM (power_up zeroed_eeprom)) = 0
   \<and> 0 < Ro_MQ135 (kalibrasiSensor clean_air_reads serial_device)
   \<and> Ro_MQ135 (bacaEEPROM (power_up (EEPROM (kalibrasiSensor clean_air_reads serial_device))))
       = Ro_MQ135 (kalibrasiSensor clean_air_reads serial_device)
   \<and> hitungKonsentrasi 5 0 MQ135_A MQ135_B = Num (- 1)"
  using
    bacaEEPROM_baselines
      [of unmarked_eeprom serial_device clean_air_reads 0 5 MQ135_A MQ135_B]
    bacaEEPROM_baselines
      [of zeroed_eeprom "power_up zeroed_eeprom" clean_air_reads 0 5 MQ135_A MQ135_B]
  by (simp add: unmarked_eeprom_def zeroed_eeprom_def serial_device_def power_up_def
      CALIB_MAGIC_def)

text \<open>
  The claim C5 as stated fails: an EEPROM that carries the marker over three cells holding 0
  is loaded, and all three baselines are 0 afterwards instead of the default 10.0.
\<close>

theorem bacaEEPROM_zero_counterexample:
  "Ro_MQ135 (bacaEEPROM (power_up zeroed_eeprom)) = 0
   \<and> Ro_MQ7 (bacaEEPROM (power_up zeroed_eeprom)) = 0
   \<and> Ro_MQ9 (bacaEEPROM (power_up zeroed_eeprom)) = 0
   \<and> \<not> 0 < Ro_MQ135 (bacaEEPROM (power_up zeroed_eeprom))
   \<and> Ro_MQ135 (bacaEEPROM (power_up zeroed_eeprom)) \<noteq> 10.0"
  by (simp add: bacaEEPROM_def power_up_def zeroed_eeprom_def CALIB_MAGIC_def)

subsection \<open>The reading cycle\<close>

lemma adc_rejected_iff:
  "fst (adc_rejected a135 a7 a9 out) \<longleftrightarrow> 4095 < a135 \<or> 4095 < a7 \<or> 4095 < a9"
  by (simp add: adc_rejected_def validasiADC_def)

lemma adc_rejected_log:
  "a135 \<le> 4095 \<Longrightarrow> a7 \<le> 4095 \<Longrightarrow> a9 \<le> 4095 \<Longrightarrow>
   snd (adc_rejected a135 a7 a9 out) =
     out @ (if a135 < 5 then [AdcVeryLow ''MQ135'' a135] else [])
         @ (if a7 < 5 then [AdcVeryLow ''MQ7'' a7] else [])
         @ (if a9 < 5 then [AdcVeryLow ''MQ9'' a9] else [])"
  by (simp add: adc_rejected_def validasiADC_def)

lemma readSensorData_rejected:
  assumes "fst (adc_rejected (analog_MQ135 hw) (analog_MQ7 hw) (analog_MQ9 hw) (Serial d))"
  shows "readSensorData hw r d =
    (r\<lparr>adc_135 := analog_MQ135 hw, adc_7 := analog_MQ7 hw, adc_9 := analog_MQ9 hw, aqi := - 1\<rparr>,
     d\<lparr>Serial := snd (adc_rejected (analog_MQ135 hw) (analog_MQ7 hw) (analog_MQ9 hw) (Serial d))\<rparr>)"
  using assms by (simp add: readSensorData_def Let_def case_prod_beta)

lemma readSensorData_accepted_gas:
  assumes "\<not> fst (adc_rejected (analog_MQ135 hw) (analog_MQ7 hw) (analog_MQ9 hw) (Serial d))"
  shows "ppm_135 (fst (readSensorData hw r d)) =
           (let p = num_of (hitungKonsentrasi (hitungRs (analog_MQ135 hw)) (Ro_MQ135 d)
                      (to_float (to_double MQ135_A)) (to_float (to_double MQ135_B)))
            in if p < 0 then to_float (to_double MIN_PPM_THRESHOLD) else p)"
    and "ppm_7 (fst (readSensorData hw r d)) =
           (let p = num_of (hitungKonsentrasi (hitungRs (analog_MQ7 hw)) (Ro_MQ7 d)
                      (to_float (to_double MQ7_A)) (to_float (to_double MQ7_B)))
            in if p < 0 then to_float (to_double MIN_PPM_THRESHOLD) else p)"
    and "ppm_9 (fst (readSensorData hw r d)) =
           (let p = num_of (hitungKonsentrasi (hitungRs (analog_MQ9 hw)) (Ro_MQ9 d)
                      (to_float (to_double MQ9_A)) (to_float (to_double MQ9_B)))
            in if p < 0 then to_float (to_double MIN_PPM_THRESHOLD) else p)"
    and "aqi (fst (readSensorData hw r d)) =
           hitungAQI (ppm_135 (fst (readSensorData hw r d))) (ppm_7 (fst (readSensorData hw r d)))
             (ppm_9 (fst (readSensorData hw r d)))"
    and "adc_135 (fst (readSensorData hw r d)) = analog_MQ135 hw"
    and "adc_7 (fst (readSensorData hw r d)) = analog_MQ7 hw"
    and "adc_9 (fst (readSensorData hw r d)) = analog_MQ9 hw"
  using assms
  by (simp_all add: readSensorData_def Let_def case_prod_beta split: option.splits)

lemma readSensorData_accepted_dht_fail:
  assumes "\<not> fst (adc_rejected (analog_MQ135 hw) (analog_MQ7 hw) (analog_MQ9 hw) (Serial d))"
    and "bacaDHT (dht_temperature hw) (dht_humidity hw) = None"
  shows "temp (fst (readSensorData hw r d)) = lastValidTemp d"
    and "hum (fst (readSensorData hw r d)) = lastValidHumidity d"
    and "snd (readSensorData hw r d) =
           d\<lparr>Serial := snd (adc_rejected (analog_MQ135 hw) (analog_MQ7 hw) (analog_MQ9 hw) (Serial d)),
             dhtErrorCount := dhtErrorCount d + 1\<rparr>"
  using assms
  by (simp_all add: readSensorData_def Let_def case_prod_beta)

lemma readSensorData_accepted_dht_ok:
  assumes "\<not> fst (adc_rejected (analog_MQ135 hw) (analog_MQ7 hw) (analog_MQ9 hw) (Serial d))"
    and "bacaDHT (dht_temperature hw) (dht_humidity hw) = Some (t, h)"
  shows "temp (fst (readSensorData hw r d)) = t"
    and "hum (fst (readSensorData hw r d)) = h"
    and "snd (readSensorData hw r d) =
           d\<lparr>Serial := snd (adc_rejected (analog_MQ135 hw) (analog_MQ7 hw) (analog_MQ9 hw) (Serial d)),
             lastValidTemp := t, lastValidHumidity := h, dhtErrorCount := 0\<rparr>"
  using assms
  by (simp_all add: readSensorData_def Let_def case_prod_beta)

lemma substituted_ppm_floor:
  assumes "a \<noteq> 0"
  shows "0.1 \<le> (let p = num_of (hitungKonsentrasi Rs Ro a b)
                in if p < 0 then to_float (to_double MIN_PPM_THRESHOLD) else p)"
  using hitungKonsentrasi_cases [OF assms, of Rs Ro b]
  by (auto simp add: Let_def threshold_float)

lemma hitungAQI_floor:
  assumes "0.1 \<le> x" and "0.1 \<le> y" and "0.1 \<le> z"
  shows "0 < hitungAQI x y z"
  using assms by (simp add: hitungAQI_def Let_def)

lemma readSensorData_accepted_aqi_pos:
  assumes "\<not> fst (adc_rejected (analog_MQ135 hw) (analog_MQ7 hw) (analog_MQ9 hw) (Serial d))"
  shows "0 < aqi (fst (readSensorData hw r d))"
  unfolding readSensorData_accepted_gas(4) [OF assms]
  by (intro hitungAQI_floor)
    (simp_all only: readSensorData_accepted_gas(1,2,3) [OF assms]
      substituted_ppm_floor [OF coefficients_nonzero(1)]
      substituted_ppm_floor [OF coefficients_nonzero(2)]
      substituted_ppm_floor [OF coefficients_nonzero(3)])

text \<open>
  Claim C6. If one of the three ADC codes is above 4095, \<^verbatim>\<open>sendSensorData\<close> never hands a
  reading to \<^verbatim>\<open>createSensorJSON\<close>: once past the WiFi gate it ends with the outcome
  "sensor data invalid"; \<^verbatim>\<open>readSensorData\<close> has written only the three ADC codes and
  \<open>aqi = -1\<close>, and no global except the serial log has changed. If all three codes are
  at most 4095, the index is positive and the reading is handed on; a code below 5 only
  adds its message to the serial log.
\<close>

theorem adc_above_max_aborts:
  "(4095 < analog_MQ135 hw \<or> 4095 < analog_MQ7 hw \<or> 4095 < analog_MQ9 hw \<longrightarrow>
      (\<forall>r. fst (sendSensorData hw locals d) \<noteq> Handed r)
      \<and> (wifiConnected d \<or> protocol d = ''SERIAL'' \<longrightarrow>
           fst (sendSensorData hw locals d) = SensorDataInvalid)
      \<and> fst (readSensorData hw locals d) =
           locals\<lparr>adc_135 := analog_MQ135 hw, adc_7 := analog_MQ7 hw, adc_9 := analog_MQ9 hw,
                  aqi := - 1\<rparr>
      \<and> snd (readSensorData hw locals d) =
           d\<lparr>Serial := Serial (snd (readSensorData hw locals d))\<rparr>)
   \<and> (analog_MQ135 hw \<le> 4095 \<and> analog_MQ7 hw \<le> 4095 \<and> analog_MQ9 hw \<le> 4095 \<longrightarrow>
      0 < aqi (fst (readSensorData hw locals d))
      \<and> (wifiConnected d \<or> protocol d = ''SERIAL'' \<longrightarrow>
           fst (sendSensorData hw locals d) = Handed (fst (readSensorData hw locals d)))
      \<and> Serial (snd (readSensorData hw locals d)) =
           Serial d
           @ (if analog_MQ135 hw < 5 then [AdcVeryLow ''MQ135'' (analog_MQ135 hw)] else [])
           @ (if analog_MQ7 hw < 5 then [AdcVeryLow ''MQ7'' (analog_MQ7 hw)] else [])
           @ (if analog_MQ9 hw < 5 then [AdcVeryLow ''MQ9'' (analog_MQ9 hw)] else []))"
proof (intro conjI impI)
  let ?rej = "adc_rejected (analog_MQ135 hw) (analog_MQ7 hw) (analog_MQ9 hw) (Serial d)"
  {
    assume above: "4095 < analog_MQ135 hw \<or> 4095 < analog_MQ7 hw \<or> 4095 < analog_MQ9 hw"
    then have rej: "fst ?rej"
      by (simp add: adc_rejected_iff)
    note rd = readSensorData_rejected [OF rej, of locals]
    show "\<forall>r. fst (sendSensorData hw locals d) \<noteq> Handed r"
      by (simp add: sendSensorData_def rd)
    show "fst (readSensorData hw locals d) =
        locals\<lparr>adc_135 := analog_MQ135 hw, adc_7 := analog_MQ7 hw, adc_9 := analog_MQ9 hw,
               aqi := - 1\<rparr>"
      by (simp add: rd)
    show "snd (readSensorData hw locals d) = d\<lparr>Serial := Serial (snd (readSensorData hw locals d))\<rparr>"
      by (simp add: rd)
    {
      assume "wifiConnected d \<or> protocol d = ''SERIAL''"
      then show "fst (sendSensorData hw locals d) = SensorDataInvalid"
        by (auto simp add: sendSensorData_def rd)
    }
  }
  {
    assume within: "analog_MQ135 hw \<le> 4095 \<and> analog_MQ7 hw \<le> 4095 \<and> analog_MQ9 hw \<le> 4095"
    then have acc: "\<not> fst ?rej"
      by (simp add: adc_rejected_iff)
    show pos: "0 < aqi (fst (readSensorData hw locals d))"
      by (rule readSensorData_accepted_aqi_pos [OF acc])
    have "Serial (snd (readSensorData hw locals d)) = snd ?rej"
      by (cases "bacaDHT (dht_temperature hw) (dht_humidity hw)")
        (auto simp add: readSensorData_accepted_dht_fail(3) [OF acc]
          readSensorData_accepted_dht_ok(3) [OF acc])
    then show "Serial (snd (readSensorData hw locals d)) =
           Serial d
           @ (if analog_MQ135 hw < 5 then [AdcVeryLow ''MQ135'' (analog_MQ135 hw)] else [])
           @ (if analog_MQ7 hw < 5 then [AdcVeryLow ''MQ7'' (analog_MQ7 hw)] else [])
           @ (if analog_MQ9 hw < 5 then [AdcVeryLow ''MQ9'' (analog_MQ9 hw)] else [])"
      using within by (simp only: adc_rejected_log)
    {
      assume "wifiConnected d \<or> protocol d = ''SERIAL''"
      then show "fst (sendSensorData hw locals d) = Handed (fst (readSensorData hw locals d))"
        using pos by (auto simp add: sendSensorData_def case_prod_beta)
    }
  }
qed

theorem adc_above_max_aborts_witness:
  "fst (sendSensorData hw_above_max sample_locals serial_device) = SensorDataInvalid
   \<and> fst (readSensorData hw_above_max sample_locals serial_device) =
       sample_locals\<lparr>adc_135 := 2000, adc_7 := 4096, adc_9 := 2000, aqi := - 1\<rparr>
   \<and> fst (sendSensorData hw_near_zero sample_locals serial_device) =
       Handed (fst (readSensorData hw_near_zero sample_locals serial_device))
   \<and> 0 < aqi (fst (readSensorData hw_near_zero sample_locals serial_device))
   \<and> Serial (snd (readSensorData hw_near_zero sample_locals serial_device)) =
       [AdcVeryLow ''MQ135'' 3]"
  using adc_above_max_aborts [of hw_above_max sample_locals serial_device]
    adc_above_max_aborts [of hw_near_zero sample_locals serial_device]
  by (simp add: hw_above_max_def hw_near_zero_def serial_device_def power_up_def)

lemma sint_succ_32:
  fixes c :: "32 word"
  assumes "sint c < 2147483647"
  shows "sint (c + 1) = sint c + 1"
proof -
  have lo: "- (2 ^ 31) \<le> sint c"
    using sint_ge [of c] by simp
  have "sint (c + 1) = signed_take_bit 31 (sint c + 1)"
    by (simp add: sint_word_ariths)
  also have "\<dots> = sint c + 1"
    using lo assms by (intro signed_take_bit_int_eq_self) simp_all
  finally show ?thesis .
qed

lemma bacaDHT_None_iff:
  "bacaDHT t h = None \<longleftrightarrow>
     t = None \<or> h = None
     \<or> (\<exists>x y. t = Some x \<and> h = Some y \<and> (x < - 40 \<or> x > 80 \<or> y < 0 \<or> y > 100))"
  by (auto simp add: bacaDHT_def split: option.splits)

text \<open>
  Claim C7. In a cycle whose ADC codes pass validation (only then is the DHT read), a failed
  \<^verbatim>\<open>bacaDHT\<close> makes the temperature and humidity outputs equal to the last valid values,
  which stay as they were, and adds exactly 1 to \<^verbatim>\<open>dhtErrorCount\<close> (as a 32-bit word; as
  a signed number too unless it was already \<open>2^31 - 1\<close>). The ppm values, the index and
  the ADC codes of the reading are the same as with any other values from the DHT driver.
\<close>

theorem dht_failure_keeps_last_values:
  assumes valid: "analog_MQ135 hw \<le> 4095 \<and> analog_MQ7 hw \<le> 4095 \<and> analog_MQ9 hw \<le> 4095"
    and bad: "dht_temperature hw = None \<or> dht_humidity hw = None
      \<or> (\<exists>x y. dht_temperature hw = Some x \<and> dht_humidity hw = Some y
            \<and> (x < - 40 \<or> x > 80 \<or> y < 0 \<or> y > 100))"
  shows "bacaDHT (dht_temperature hw) (dht_humidity hw) = None
    \<and> temp (fst (readSensorData hw locals d)) = lastValidTemp d
    \<and> hum (fst (readSensorData hw locals d)) = lastValidHumidity d
    \<and> lastValidTemp (snd (readSensorData hw locals d)) = lastValidTemp d
    \<and> lastValidHumidity (snd (readSensorData hw locals d)) = lastValidHumidity d
    \<and> dhtErrorCount (snd (readSensorData hw locals d)) = dhtErrorCount d + 1
    \<and> (sint (dhtErrorCount d) < 2147483647 \<longrightarrow>
         sint (dhtErrorCount (snd (readSensorData hw locals d))) = sint (dhtErrorCount d) + 1)
    \<and> (\<forall>t h. let other = fst (readSensorData (hw\<lparr>dht_temperature := t, dht_humidity := h\<rparr>) locals d)
         in ppm_135 (fst (readSensorData hw locals d)) = ppm_135 other
          \<and> ppm_7 (fst (readSensorData hw locals d)) = ppm_7 other
          \<and> ppm_9 (fst (readSensorData hw locals d)) = ppm_9 other
          \<and> aqi (fst (readSensorData hw locals d)) = aqi other
          \<and> adc_135 (fst (readSensorData hw locals d)) = adc_135 other
          \<and> adc_7 (fst (readSensorData hw locals d)) = adc_7 other
          \<and> adc_9 (fst (readSensorData hw locals d)) = adc_9 other)"
proof -
  let ?rej = "adc_rejected (analog_MQ135 hw) (analog_MQ7 hw) (analog_MQ9 hw) (Serial d)"
  from valid have acc: "\<not> fst ?rej"
    by (simp add: adc_rejected_iff)
  from bad have failed: "bacaDHT (dht_temperature hw) (dht_humidity hw) = None"
    by (simp only: bacaDHT_None_iff)
  note dht = readSensorData_accepted_dht_fail [OF acc failed, of locals]
  have count: "dhtErrorCount (snd (readSensorData hw locals d)) = dhtErrorCount d + 1"
    by (simp add: dht(3))
  have signed: "sint (dhtErrorCount d) < 2147483647 \<longrightarrow>
      sint (dhtErrorCount (snd (readSensorData hw locals d))) = sint (dhtErrorCount d) + 1"
    by (simp add: count sint_succ_32)
  have last_good: "lastValidTemp (snd (readSensorData hw locals d)) = lastValidTemp d"
    "lastValidHumidity (snd (readSensorData hw locals d)) = lastValidHumidity d"
    by (simp_all add: dht(3))
  have gas: "let other = fst (readSensorData (hw\<lparr>dht_temperature := t, dht_humidity := h\<rparr>) locals d)
         in ppm_135 (fst (readSensorData hw locals d)) = ppm_135 other
          \<and> ppm_7 (fst (readSensorData hw locals d)) = ppm_7 other
          \<and> ppm_9 (fst (readSensorData hw locals d)) = ppm_9 other
          \<and> aqi (fst (readSensorData hw locals d)) = aqi other
          \<and> adc_135 (fst (readSensorData hw locals d)) = adc_135 other
          \<and> adc_7 (fst (readSensorData hw locals d)) = adc_7 other
          \<and> adc_9 (fst (readSensorData hw locals d)) = adc_9 other" for t h
  proof -
    let ?hw = "hw\<lparr>dht_temperature := t, dht_humidity := h\<rparr>"
    have acc': "\<not> fst (adc_rejected (analog_MQ135 ?hw) (analog_MQ7 ?hw) (analog_MQ9 ?hw) (Serial d))"
      using acc by simp
    note a = readSensorData_accepted_gas [OF acc, of locals]
    note b = readSensorData_accepted_gas [OF acc', of locals]
    have p: "ppm_135 (fst (readSensorData hw locals d)) = ppm_135 (fst (readSensorData ?hw locals d))"
      "ppm_7 (fst (readSensorData hw locals d)) = ppm_7 (fst (readSensorData ?hw locals d))"
      "ppm_9 (fst (readSensorData hw locals d)) = ppm_9 (fst (readSensorData ?hw locals d))"
      unfolding a(1,2,3) b(1,2,3) by simp_all
    have q: "aqi (fst (readSensorData hw locals d)) = aqi (fst (readSensorData ?hw locals d))"
      using a(4) b(4) p by simp
    have r: "adc_135 (fst (readSensorData hw locals d)) = adc_135 (fst (readSensorData ?hw locals d))"
      "adc_7 (fst (readSensorData hw locals d)) = adc_7 (fst (readSensorData ?hw locals d))"
      "adc_9 (fst (readSensorData hw locals d)) = adc_9 (fst (readSensorData ?hw locals d))"
      unfolding a(5,6,7) b(5,6,7) by simp_all
    from p q r show ?thesis
      by (simp only: Let_def simp_thms)
  qed
  from failed dht(1,2) last_good count signed gas show ?thesis
    by blast
qed

theorem dht_failure_keeps_last_values_witness:
  "bacaDHT None (Some 50) = None
   \<and> temp (fst (readSensorData hw_dht_nan sample_locals serial_device)) = 25
   \<and> hum (fst (readSensorData hw_dht_nan sample_locals serial_device)) = 50
   \<and> dhtErrorCount (snd (readSensorData hw_dht_nan sample_locals serial_device)) = 1
   \<and> sint (dhtErrorCount (snd (readSensorData hw_dht_nan sample_locals serial_device))) = 1
   \<and> bacaDHT (Some 85) (Some 50) = None
   \<and> temp (fst (readSensorData hw_dht_hot sample_locals serial_device)) = 25
   \<and> hum (fst (readSensorData hw_dht_hot sample_locals serial_device)) = 50
   \<and> lastValidTemp (snd (readSensorData hw_dht_hot sample_locals serial_device)) = 25"
  using dht_failure_keeps_last_values [of hw_dht_nan sample_locals serial_device]
    dht_failure_keeps_last_values [of hw_dht_hot sample_locals serial_device]
  by (simp add: hw_dht_nan_def hw_dht_hot_def serial_device_def power_up_def)

subsection \<open>Dashboard history\<close>

lemma slice_from_last_1000:
  assumes "1000 < length xs"
  shows "slice_from (- 1000) xs = drop (length xs - 1000) xs"
proof -
  have "nat (int (length xs) + - 1000) = length xs - 1000"
    by simp
  moreover have "max (int (length xs) + - 1000) 0 = int (length xs) + - 1000"
    using assms by simp
  ultimately show ?thesis
    by (simp add: slice_from_def Let_def)
qed

lemma saveSensorData_history:
  "sensorDataHistory (saveSensorData data st) =
     (let appended = (case stored_sensorData st of None \<Rightarrow> [] | Some parsed \<Rightarrow> parsed) @ [data]
      in drop (length appended - 1000) appended)"
proof -
  define appended where
    "appended = (case stored_sensorData st of None \<Rightarrow> [] | Some parsed \<Rightarrow> parsed) @ [data]"
  have "sensorDataHistory (saveSensorData data st) =
      (if length appended > 1000 then slice_from (- 1000) appended else appended)"
    by (simp add: saveSensorData_def Let_def appended_def)
  also have "\<dots> = drop (length appended - 1000) appended"
    by (simp add: slice_from_last_1000)
  finally show ?thesis
    by (simp add: Let_def appended_def)
qed

text \<open>
  Claim C10. After \<^verbatim>\<open>storage.saveSensorData\<close> the persisted history and
  \<^verbatim>\<open>state.sensorDataHistory\<close> are the same list of at most 1000 records: the stored
  history with the new record appended, cut at the front (the oldest records) down to its
  last 1000 entries; the new record is its last entry.
\<close>

theorem saveSensorData_bounded:
  "length (sensorDataHistory (saveSensorData data st)) \<le> 1000
   \<and> stored_sensorData (saveSensorData data st) = Some (sensorDataHistory (saveSensorData data st))
   \<and> sensorDataHistory (saveSensorData data st) =
       (let appended = (case stored_sensorData st of None \<Rightarrow> [] | Some parsed \<Rightarrow> parsed) @ [data]
        in drop (length appended - 1000) appended)
   \<and> last (sensorDataHistory (saveSensorData data st)) = data"
proof -
  have len: "length (sensorDataHistory (saveSensorData data st)) \<le> 1000"
    unfolding saveSensorData_history by (simp add: Let_def)
  have stored: "stored_sensorData (saveSensorData data st)
      = Some (sensorDataHistory (saveSensorData data st))"
    by (simp add: saveSensorData_def Let_def)
  have newest: "last (sensorDataHistory (saveSensorData data st)) = data"
    unfolding saveSensorData_history by (simp add: Let_def)
  from len stored newest saveSensorData_history [of data st] show ?thesis
    by blast
qed

end
